theory Spec2Isabelle
  imports Main "HOL-Library.Sublist"
begin

section \<open>Python values, strings and containers\<close>

text \<open>
  The powerups of \<^verbatim>\<open>matmethods/vasp/vasp_powerups.py\<close> and the builders of
  \<^verbatim>\<open>matmethods/lammps/workflows/core.py\<close> work on nested Python values: dictionaries
  of parameters, lists of serialized tasks, priorities. The values that occur are
  modelled by one datatype; a dictionary is an association list in iteration order.
\<close>

datatype pyval =
    PNone
  | PBool bool
  | PInt int
  | PStr string
  | PList "pyval list"
  | PDict "(string \<times> pyval) list"

datatype py_error = KeyError | IndexError | ExternalError

text \<open>Truth value of a Python object, as used by \<^verbatim>\<open>x or y\<close> and \<^verbatim>\<open>x if x else y\<close>.\<close>

fun py_truthy :: "pyval \<Rightarrow> bool" where
  "py_truthy PNone = False"
| "py_truthy (PBool b) = b"
| "py_truthy (PInt i) = (i \<noteq> 0)"
| "py_truthy (PStr s) = (s \<noteq> [])"
| "py_truthy (PList xs) = (xs \<noteq> [])"
| "py_truthy (PDict kvs) = (kvs \<noteq> [])"

definition py_or :: "pyval \<Rightarrow> pyval \<Rightarrow> pyval" where
  "py_or a b = (if py_truthy a then a else b)"

text \<open>The substring test \<^verbatim>\<open>sub in s\<close> on strings.\<close>

fun py_in :: "string \<Rightarrow> string \<Rightarrow> bool" where
  "py_in sub [] = (sub = [])"
| "py_in sub (c # cs) = (prefix sub (c # cs) \<or> py_in sub cs)"

text \<open>Checked list subscripting and item assignment (non-negative indices only occur).\<close>

definition py_get :: "'a list \<Rightarrow> nat \<Rightarrow> py_error + 'a" where
  "py_get xs i = (if i < length xs then Inr (xs ! i) else Inl IndexError)"

definition py_set :: "'a list \<Rightarrow> nat \<Rightarrow> 'a \<Rightarrow> py_error + 'a list" where
  "py_set xs i v = (if i < length xs then Inr (xs[i := v]) else Inl IndexError)"

text \<open>
  \<^verbatim>\<open>list.insert(i, x)\<close>: a negative index counts from the end, and an index outside the
  list is clipped to its ends; the call never raises.
\<close>

definition py_insert :: "'a list \<Rightarrow> int \<Rightarrow> 'a \<Rightarrow> 'a list" where
  "py_insert xs i x =
     (let n = int (length xs);
          j = (if i < 0 then max 0 (i + n) else min i n)
      in take (nat j) xs @ [x] @ drop (nat j) xs)"

text \<open>
  \<^verbatim>\<open>repr\<close> of a value, which \<^verbatim>\<open>str\<close> of a task embeds for its parameters. Strings are
  put between single quotes as they are (no escape sequences, no \<^verbatim>\<open>u\<close> prefix).
\<close>

fun nat_repr :: "nat \<Rightarrow> string" where
  "nat_repr n =
     (if n < 10 then [''0123456789'' ! n]
      else nat_repr (n div 10) @ [''0123456789'' ! (n mod 10)])"

declare nat_repr.simps [simp del]

fun join :: "string \<Rightarrow> string list \<Rightarrow> string" where
  "join sep [] = []"
| "join sep [x] = x"
| "join sep (x # y # ys) = x @ sep @ join sep (y # ys)"

fun py_repr :: "pyval \<Rightarrow> string" where
  "py_repr PNone = ''None''"
| "py_repr (PBool b) = (if b then ''True'' else ''False'')"
| "py_repr (PInt i) = (if i < 0 then ''-'' @ nat_repr (nat (- i)) else nat_repr (nat i))"
| "py_repr (PStr s) = [CHR 0x27] @ s @ [CHR 0x27]"
| "py_repr (PList xs) = ''['' @ join '', '' (map py_repr xs) @ '']''"
| "py_repr (PDict kvs) =
     ''{'' @ join '', '' (map (\<lambda>kv. [CHR 0x27] @ fst kv @ [CHR 0x27] @ '': '' @ py_repr (snd kv)) kvs) @ ''}''"


section \<open>Tasks, Fireworks and workflows\<close>

text \<open>
  A task is a dictionary of parameters whose class gives the name stored under
  \<^verbatim>\<open>"_fw_name"\<close> when the task is serialized. A task object and its serialized
  dictionary carry the same data, so one record stands for both: \<^verbatim>\<open>t.to_dict()\<close> and
  the loading of a task from its dictionary are the identity on it, and
  \<^verbatim>\<open>d["vasp_cmd"]\<close> on a serialized task is a lookup in \<open>params\<close>.
\<close>

record task =
  fw_name :: string
  params :: "(string \<times> pyval) list"

text \<open>
  \<^verbatim>\<open>str(task)\<close>: the orchestration library prints a task as
  \<^verbatim>\<open>'<{}>:{}'.format(self.fw_name, dict(self))\<close>.
\<close>

definition str_task :: "task \<Rightarrow> string" where
  "str_task t = ''<'' @ fw_name t @ ''>:'' @ py_repr (PDict (params t))"

record tracker =
  filename :: string
  nlines :: int
  allow_zipped :: bool

text \<open>
  The settings map \<^verbatim>\<open>fw.spec\<close>. The keys the powerups read or write are fields of their
  own (\<open>None\<close>: the key is absent); every other key is kept in \<open>s_other\<close>.
\<close>

record fw_spec =
  s_tasks :: "task list"
  s_trackers :: "tracker list option"
  s_priority :: "pyval option"
  s_other :: "(string \<times> pyval) list"

record firework =
  fw_id :: int
  name :: string
  tasks :: "task list"
  spec :: fw_spec

text \<open>A workflow: its Fireworks in order, its dependency links (parent, child), its name.\<close>

record workflow =
  fws :: "firework list"
  links :: "(int \<times> int) list"
  wf_name :: string

text \<open>The nested mapping \<^verbatim>\<open>Workflow.to_dict()\<close> returns.\<close>

record firework_dict =
  d_fw_id :: int
  d_name :: string
  d_spec :: fw_spec

record workflow_dict =
  d_fws :: "firework_dict list"
  d_links :: "(int \<times> int) list"
  d_wf_name :: string

text \<open>
  Serialization of the orchestration library, as the data model of the specification
  describes it: a Firework is serialized with its \<^verbatim>\<open>spec\<close> (which holds the serialized
  task list under \<^verbatim>\<open>"_tasks"\<close>), and the reconstructed Firework takes its in-memory task
  list from \<^verbatim>\<open>spec["_tasks"]\<close>. \<^verbatim>\<open>to_dict\<close> returns fresh containers, so editing the
  result does not touch the workflow it came from.
\<close>

definition fw_to_dict :: "firework \<Rightarrow> firework_dict" where
  "fw_to_dict fw = \<lparr>d_fw_id = fw_id fw, d_name = name fw, d_spec = spec fw\<rparr>"

definition fw_from_dict :: "firework_dict \<Rightarrow> firework" where
  "fw_from_dict d =
     \<lparr>fw_id = d_fw_id d, name = d_name d, tasks = s_tasks (d_spec d), spec = d_spec d\<rparr>"

definition to_dict :: "workflow \<Rightarrow> workflow_dict" where
  "to_dict w = \<lparr>d_fws = map fw_to_dict (fws w), d_links = links w, d_wf_name = wf_name w\<rparr>"

definition from_dict :: "workflow_dict \<Rightarrow> workflow" where
  "from_dict d = \<lparr>fws = map fw_from_dict (d_fws d), links = d_links d, wf_name = d_wf_name d\<rparr>"

text \<open>
  \<^verbatim>\<open>Workflow.root_fw_ids\<close> of the orchestration library: the ids of the Fireworks no link
  points to.
\<close>

definition root_fw_ids :: "workflow \<Rightarrow> int list" where
  "root_fw_ids w = filter (\<lambda>i. i \<notin> snd ` set (links w)) (map fw_id (fws w))"

text \<open>
  The invariant the powerups rely on and do not enforce: the serialized task list of
  every Firework mirrors its in-memory task list.
\<close>

definition tasks_mirrored :: "workflow \<Rightarrow> bool" where
  "tasks_mirrored w = list_all (\<lambda>fw. s_tasks (spec fw) = tasks fw) (fws w)"

section \<open>Task constructors used by the powerups\<close>

text \<open>
  Modelled from the spec: the task classes \<^verbatim>\<open>RunVaspCustodian\<close>, \<^verbatim>\<open>RunVaspFake\<close> and
  \<^verbatim>\<open>ModifyIncar\<close> are imported from modules that are not part of the sources at hand
  (\<^verbatim>\<open>matmethods.vasp.firetasks.run_calc\<close>, \<^verbatim>\<open>matmethods.vasp.tests.vasp_fake\<close>,
  \<^verbatim>\<open>matmethods.vasp.firetasks.write_inputs\<close>). Each is a task whose serialized name is
  the class path and whose parameters are the keyword arguments of the call.
  \<^verbatim>\<open>FileWriteTask\<close> and \<^verbatim>\<open>Tracker\<close> belong to the orchestration library.
\<close>

definition RunVaspCustodian :: "(string \<times> pyval) list \<Rightarrow> task" where
  "RunVaspCustodian kwargs =
     \<lparr>fw_name = ''{{matmethods.vasp.firetasks.run_calc.RunVaspCustodian}}'', params = kwargs\<rparr>"

definition RunVaspFake :: "string \<Rightarrow> task" where
  "RunVaspFake fake_dir =
     \<lparr>fw_name = ''{{matmethods.vasp.tests.vasp_fake.RunVaspFake}}'',
      params = [(''fake_dir'', PStr fake_dir)]\<rparr>"

definition ModifyIncar :: "(string \<times> pyval) list \<Rightarrow> task" where
  "ModifyIncar kwargs =
     \<lparr>fw_name = ''{{matmethods.vasp.firetasks.write_inputs.ModifyIncar}}'', params = kwargs\<rparr>"

definition FileWriteTask :: "pyval \<Rightarrow> task" where
  "FileWriteTask files_to_write =
     \<lparr>fw_name = ''FileWriteTask'', params = [(''files_to_write'', files_to_write)]\<rparr>"

definition Tracker :: "string \<Rightarrow> int \<Rightarrow> bool \<Rightarrow> tracker" where
  "Tracker f n z = \<lparr>filename = f, nlines = n, allow_zipped = z\<rparr>"

section \<open>The VASP powerups\<close>

subsection \<open>Locating the tasks that run VASP\<close>

definition is_runvasp_task :: "task \<Rightarrow> bool" where
  "is_runvasp_task t = (if py_in ''RunVasp'' (str_task t) then True else False)"

text \<open>
  \<^verbatim>\<open>fake_dirs\<close> is a dictionary from job-type labels to directories, imported from
  \<^verbatim>\<open>matmethods.vasp.tests.vasp_fake\<close>; it is a parameter \<open>fd\<close> here, an association list
  in the iteration order of its keys.

  The three nested \<^verbatim>\<open>for\<close> loops of \<^verbatim>\<open>get_runvasp_fws_and_tasks\<close>, innermost first;
  \<open>acc\<close> is the list \<^verbatim>\<open>fws_and_tasks\<close> that the loops append to.
\<close>

fun scan_tasks :: "nat \<Rightarrow> nat \<Rightarrow> task list \<Rightarrow> (nat \<times> nat) list \<Rightarrow> (nat \<times> nat) list" where
  "scan_tasks idx_fw idx_t [] acc = acc"
| "scan_tasks idx_fw idx_t (t # ts) acc =
     scan_tasks idx_fw (Suc idx_t) ts
       (if is_runvasp_task t then acc @ [(idx_fw, idx_t)] else acc)"

fun scan_job_types :: "nat \<Rightarrow> firework \<Rightarrow> string list \<Rightarrow> (nat \<times> nat) list \<Rightarrow> (nat \<times> nat) list" where
  "scan_job_types idx_fw fw [] acc = acc"
| "scan_job_types idx_fw fw (job_type # jts) acc =
     scan_job_types idx_fw fw jts
       (if py_in job_type (name fw) then scan_tasks idx_fw 0 (tasks fw) acc else acc)"

fun scan_fws :: "string list \<Rightarrow> nat \<Rightarrow> firework list \<Rightarrow> (nat \<times> nat) list \<Rightarrow> (nat \<times> nat) list" where
  "scan_fws keys idx_fw [] acc = acc"
| "scan_fws keys idx_fw (fw # rest) acc =
     scan_fws keys (Suc idx_fw) rest (scan_job_types idx_fw fw keys acc)"

definition get_runvasp_fws_and_tasks :: "(string \<times> string) list \<Rightarrow> workflow \<Rightarrow> (nat \<times> nat) list" where
  "get_runvasp_fws_and_tasks fd w = scan_fws (map fst fd) 0 (fws w) []"


subsection \<open>Loops over the located pairs\<close>

text \<open>A \<^verbatim>\<open>for\<close> loop whose body may raise: the first error ends the loop.\<close>

fun for_each :: "('s \<Rightarrow> 'a \<Rightarrow> py_error + 's) \<Rightarrow> 'a list \<Rightarrow> 's \<Rightarrow> py_error + 's" where
  "for_each body [] s = Inr s"
| "for_each body (x # xs) s =
     (case body s x of Inl e \<Rightarrow> Inl e | Inr s' \<Rightarrow> for_each body xs s')"

text \<open>\<^verbatim>\<open>wf_dict["fws"][idx_fw]["spec"]["_tasks"][idx_t] = v\<close>\<close>

definition set_task :: "workflow_dict \<Rightarrow> nat \<Rightarrow> nat \<Rightarrow> task \<Rightarrow> py_error + workflow_dict" where
  "set_task wf_dict idx_fw idx_t v =
     (case py_get (d_fws wf_dict) idx_fw of
        Inl e \<Rightarrow> Inl e
      | Inr fwd \<Rightarrow>
          (case py_set (s_tasks (d_spec fwd)) idx_t v of
             Inl e \<Rightarrow> Inl e
           | Inr ts \<Rightarrow>
               Inr (wf_dict\<lparr>d_fws :=
                      (d_fws wf_dict)[idx_fw := fwd\<lparr>d_spec := (d_spec fwd)\<lparr>s_tasks := ts\<rparr>\<rparr>]\<rparr>)))"

definition name_passes :: "string option \<Rightarrow> string \<Rightarrow> bool" where
  "name_passes fw_name_filter nm =
     (case fw_name_filter of None \<Rightarrow> True | Some f \<Rightarrow> py_in f nm)"

subsection \<open>decorate_priority\<close>

text \<open>\<^verbatim>\<open>child_priority=None\<close> is the default; the caller who omits it passes \<open>PNone\<close>.\<close>

definition decorate_priority :: "workflow \<Rightarrow> pyval \<Rightarrow> pyval \<Rightarrow> workflow" where
  "decorate_priority original_wf root_priority child_priority =
     (let child_priority' = py_or child_priority root_priority;
          root_ids = root_fw_ids original_wf
      in original_wf\<lparr>fws :=
           map (\<lambda>fw. if fw_id fw \<in> set root_ids
                      then fw\<lparr>spec := (spec fw)\<lparr>s_priority := Some root_priority\<rparr>\<rparr>
                      else fw\<lparr>spec := (spec fw)\<lparr>s_priority := Some child_priority'\<rparr>\<rparr>)
               (fws original_wf)\<rparr>)"

subsection \<open>use_custodian\<close>

definition custodian_step ::
  "string option \<Rightarrow> (string \<times> pyval) list \<Rightarrow> workflow_dict \<Rightarrow> nat \<times> nat \<Rightarrow> py_error + workflow_dict" where
  "custodian_step fw_name_filter custodian_params wf_dict p =
     (case p of (idx_fw, idx_t) \<Rightarrow>
        (case py_get (d_fws wf_dict) idx_fw of
           Inl e \<Rightarrow> Inl e
         | Inr fwd \<Rightarrow>
             if name_passes fw_name_filter (d_name fwd) then
               if ''vasp_cmd'' \<in> fst ` set custodian_params then
                 set_task wf_dict idx_fw idx_t (RunVaspCustodian custodian_params)
               else
                 (case py_get (s_tasks (d_spec fwd)) idx_t of
                    Inl e \<Rightarrow> Inl e
                  | Inr td \<Rightarrow>
                      (case map_of (params td) ''vasp_cmd'' of
                         None \<Rightarrow> Inl KeyError
                       | Some vasp_cmd \<Rightarrow>
                           set_task wf_dict idx_fw idx_t
                             (RunVaspCustodian ((''vasp_cmd'', vasp_cmd) # custodian_params))))
             else Inr wf_dict))"

definition use_custodian ::
  "(string \<times> string) list \<Rightarrow> workflow \<Rightarrow> string option \<Rightarrow> (string \<times> pyval) list option
     \<Rightarrow> py_error + workflow" where
  "use_custodian fd original_wf fw_name_filter custodian_params =
     (let custodian_params' =
            (case custodian_params of None \<Rightarrow> [] | Some d \<Rightarrow> if d \<noteq> [] then d else []);
          wf_dict = to_dict original_wf;
          vasp_fws_and_tasks = get_runvasp_fws_and_tasks fd original_wf
      in case for_each (custodian_step fw_name_filter custodian_params') vasp_fws_and_tasks wf_dict of
           Inl e \<Rightarrow> Inl e
         | Inr d \<Rightarrow> Inr (from_dict d))"

subsection \<open>make_fake_workflow\<close>

fun fake_tasks ::
  "(string \<times> string) list \<Rightarrow> string \<Rightarrow> nat \<Rightarrow> nat \<Rightarrow> task list \<Rightarrow> workflow_dict
     \<Rightarrow> py_error + workflow_dict" where
  "fake_tasks fd job_type idx_fw idx_t [] wf_dict = Inr wf_dict"
| "fake_tasks fd job_type idx_fw idx_t (t # ts) wf_dict =
     (if is_runvasp_task t then
        (case map_of fd job_type of
           None \<Rightarrow> Inl KeyError
         | Some dir \<Rightarrow>
             (case set_task wf_dict idx_fw idx_t (RunVaspFake dir) of
                Inl e \<Rightarrow> Inl e
              | Inr d \<Rightarrow> fake_tasks fd job_type idx_fw (Suc idx_t) ts d))
      else fake_tasks fd job_type idx_fw (Suc idx_t) ts wf_dict)"

fun fake_job_types ::
  "(string \<times> string) list \<Rightarrow> nat \<Rightarrow> firework \<Rightarrow> string list \<Rightarrow> workflow_dict
     \<Rightarrow> py_error + workflow_dict" where
  "fake_job_types fd idx_fw fw [] wf_dict = Inr wf_dict"
| "fake_job_types fd idx_fw fw (job_type # jts) wf_dict =
     (if py_in job_type (name fw) then
        (case fake_tasks fd job_type idx_fw 0 (tasks fw) wf_dict of
           Inl e \<Rightarrow> Inl e
         | Inr d \<Rightarrow> fake_job_types fd idx_fw fw jts d)
      else fake_job_types fd idx_fw fw jts wf_dict)"

fun fake_fws ::
  "(string \<times> string) list \<Rightarrow> nat \<Rightarrow> firework list \<Rightarrow> workflow_dict \<Rightarrow> py_error + workflow_dict" where
  "fake_fws fd idx_fw [] wf_dict = Inr wf_dict"
| "fake_fws fd idx_fw (fw # rest) wf_dict =
     (case fake_job_types fd idx_fw fw (map fst fd) wf_dict of
        Inl e \<Rightarrow> Inl e
      | Inr d \<Rightarrow> fake_fws fd (Suc idx_fw) rest d)"

definition make_fake_workflow :: "(string \<times> string) list \<Rightarrow> workflow \<Rightarrow> py_error + workflow" where
  "make_fake_workflow fd original_wf =
     (case fake_fws fd 0 (fws original_wf) (to_dict original_wf) of
        Inl e \<Rightarrow> Inl e
      | Inr d \<Rightarrow> Inr (from_dict d))"

subsection \<open>decorate_write_name\<close>

text \<open>\<^verbatim>\<open>get_slug\<close> belongs to the orchestration library and is a parameter.\<close>

definition write_name_task :: "(string \<Rightarrow> string) \<Rightarrow> bool \<Rightarrow> firework \<Rightarrow> task" where
  "write_name_task get_slug use_slug fw =
     (let fname = ''FW--'' @ name fw;
          fname' = (if use_slug then get_slug fname else fname)
      in FileWriteTask (PList [PDict [(''filename'', PStr fname'), (''contents'', PStr [])]]))"

definition decorate_write_name :: "(string \<Rightarrow> string) \<Rightarrow> workflow \<Rightarrow> bool \<Rightarrow> workflow" where
  "decorate_write_name get_slug original_wf use_slug =
     original_wf\<lparr>fws :=
       map (\<lambda>fw. fw\<lparr>spec := (spec fw)\<lparr>s_tasks :=
                     py_insert (s_tasks (spec fw)) 0 (write_name_task get_slug use_slug fw)\<rparr>\<rparr>)
           (fws original_wf)\<rparr>"

subsection \<open>add_trackers\<close>

definition tracker1 :: tracker where
  "tracker1 = Tracker ''OUTCAR'' 25 True"

definition tracker2 :: tracker where
  "tracker2 = Tracker ''OSZICAR'' 25 True"

definition trackers_step :: "workflow_dict \<Rightarrow> nat \<times> nat \<Rightarrow> py_error + workflow_dict" where
  "trackers_step wf_dict p =
     (case p of (idx_fw, idx_t) \<Rightarrow>
        (case py_get (d_fws wf_dict) idx_fw of
           Inl e \<Rightarrow> Inl e
         | Inr fwd \<Rightarrow>
             Inr (wf_dict\<lparr>d_fws := (d_fws wf_dict)[idx_fw :=
                    fwd\<lparr>d_spec := (d_spec fwd)\<lparr>s_trackers :=
                      (case s_trackers (d_spec fwd) of
                         Some ts \<Rightarrow> Some (ts @ [tracker1, tracker2])
                       | None \<Rightarrow> Some [tracker1, tracker2])\<rparr>\<rparr>]\<rparr>)))"

definition add_trackers :: "(string \<times> string) list \<Rightarrow> workflow \<Rightarrow> py_error + workflow" where
  "add_trackers fd original_wf =
     (case for_each trackers_step (get_runvasp_fws_and_tasks fd original_wf) (to_dict original_wf) of
        Inl e \<Rightarrow> Inl e
      | Inr d \<Rightarrow> Inr (from_dict d))"

subsection \<open>add_modify_incar\<close>

definition modify_incar_step ::
  "(string \<times> pyval) list \<Rightarrow> string option \<Rightarrow> workflow \<Rightarrow> nat \<times> nat \<Rightarrow> py_error + workflow" where
  "modify_incar_step modify_incar_params fw_name_filter original_wf p =
     (case p of (idx_fw, idx_t) \<Rightarrow>
        (case py_get (fws original_wf) idx_fw of
           Inl e \<Rightarrow> Inl e
         | Inr fw \<Rightarrow>
             if name_passes fw_name_filter (name fw) then
               Inr (original_wf\<lparr>fws := (fws original_wf)[idx_fw :=
                      fw\<lparr>spec := (spec fw)\<lparr>s_tasks :=
                        py_insert (s_tasks (spec fw)) (int idx_t - 1)
                          (ModifyIncar modify_incar_params)\<rparr>\<rparr>]\<rparr>)
             else Inr original_wf))"

definition add_modify_incar ::
  "(string \<times> string) list \<Rightarrow> workflow \<Rightarrow> (string \<times> pyval) list \<Rightarrow> string option
     \<Rightarrow> py_error + workflow" where
  "add_modify_incar fd original_wf modify_incar_params fw_name_filter =
     for_each (modify_incar_step modify_incar_params fw_name_filter)
       (get_runvasp_fws_and_tasks fd original_wf) original_wf"

definition add_modify_incar_envchk ::
  "(string \<times> string) list \<Rightarrow> workflow \<Rightarrow> string option \<Rightarrow> py_error + workflow" where
  "add_modify_incar_envchk fd original_wf fw_name_filter =
     add_modify_incar fd original_wf [(''key_update'', PStr ''>>incar_update<<'')] fw_name_filter"


section \<open>The LAMMPS workflow builders\<close>

text \<open>
  \<^verbatim>\<open>WritelammpsInputFromDictInput\<close> and \<^verbatim>\<open>RunLammpsDirect\<close> are task classes of modules
  that are not part of the sources at hand; as above, each is a task named by its class
  path with the keyword arguments as parameters. \<^verbatim>\<open>Firework(tasks, name=...)\<close> and
  \<^verbatim>\<open>Workflow(fireworks, name=...)\<close> are the constructors of the orchestration library:
  the Firework stores the serialized tasks under \<^verbatim>\<open>spec["_tasks"]\<close>; \<open>fid\<close> is the id
  the library gives the new Firework.
\<close>

definition WritelammpsInputFromDictInput :: "pyval \<Rightarrow> string \<Rightarrow> task" where
  "WritelammpsInputFromDictInput lammps_dict_input input_file =
     \<lparr>fw_name = ''{{matmethods.lammps.firetasks.write_inputs.WritelammpsInputFromDictInput}}'',
      params = [(''lammps_dict_input'', lammps_dict_input), (''input_file'', PStr input_file)]\<rparr>"

definition RunLammpsDirect :: "string \<Rightarrow> task" where
  "RunLammpsDirect lammps_cmd =
     \<lparr>fw_name = ''{{matmethods.lammps.firetasks.run_calc.RunLammpsDirect}}'',
      params = [(''lammps_cmd'', PStr lammps_cmd)]\<rparr>"

definition Firework :: "int \<Rightarrow> task list \<Rightarrow> string \<Rightarrow> firework" where
  "Firework fid ts nm =
     \<lparr>fw_id = fid, name = nm, tasks = ts,
      spec = \<lparr>s_tasks = ts, s_trackers = None, s_priority = None, s_other = []\<rparr>\<rparr>"

definition Workflow :: "firework list \<Rightarrow> string \<Rightarrow> workflow" where
  "Workflow fireworks nm = \<lparr>fws = fireworks, links = [], wf_name = nm\<rparr>"

text \<open>
  The template constructors \<^verbatim>\<open>DictLammpsInput.from_file\<close> and \<^verbatim>\<open>NVTLammpsInput\<close> belong
  to an external input-rendering library and are parameters; they return the input object
  or fail, and a failure propagates to the caller.
\<close>

definition wf_from_input_template ::
  "(string \<Rightarrow> string \<Rightarrow> pyval \<Rightarrow> string \<Rightarrow> pyval \<Rightarrow> bool \<Rightarrow> py_error + pyval) \<Rightarrow> int
     \<Rightarrow> string \<Rightarrow> string \<Rightarrow> pyval \<Rightarrow> string \<Rightarrow> pyval \<Rightarrow> bool \<Rightarrow> string \<Rightarrow> string
     \<Rightarrow> py_error + workflow" where
  "wf_from_input_template from_file fid job_name input_template_file lammps_data data_filename
       user_settings is_forcefield input_filename lammps_bin =
     (case from_file job_name input_template_file lammps_data data_filename user_settings
             is_forcefield of
        Inl e \<Rightarrow> Inl e
      | Inr lammps_dict_input \<Rightarrow>
          (let task1 = WritelammpsInputFromDictInput lammps_dict_input input_filename;
               task2 = RunLammpsDirect (lammps_bin @ '' -in '' @ input_filename);
               fw1 = Firework fid [task1, task2] ''Run lammps''
           in Inr (Workflow [fw1]
                     (''LAMMPS Wflow from input template '' @ input_template_file))))"

definition nvt_wf ::
  "(pyval \<Rightarrow> string \<Rightarrow> pyval \<Rightarrow> bool \<Rightarrow> py_error + pyval) \<Rightarrow> int
     \<Rightarrow> pyval \<Rightarrow> string \<Rightarrow> string \<Rightarrow> pyval \<Rightarrow> bool \<Rightarrow> string \<Rightarrow> py_error + workflow" where
  "nvt_wf NVTLammpsInput fid data_input input_filename data_filename user_lammps_settings
       is_forcefield lammps_bin =
     (case NVTLammpsInput data_input data_filename user_lammps_settings is_forcefield of
        Inl e \<Rightarrow> Inl e
      | Inr lammps_dict_input \<Rightarrow>
          (let task1 = WritelammpsInputFromDictInput lammps_dict_input input_filename;
               task2 = RunLammpsDirect (lammps_bin @ '' -in '' @ input_filename);
               fw1 = Firework fid [task1, task2] ''Run lammps''
           in Inr (Workflow [fw1] ''LAMMPS NVT'')))"

section \<open>The scan of get_runvasp_fws_and_tasks, as the specification words it\<close>

text \<open>
  For every Firework, for every known job-type label that is a substring of the
  Firework's name, for every task index: the pair (firework index, task index) when the
  task's string representation contains \<^verbatim>\<open>RunVasp\<close>; all pairs in scan order.
\<close>

definition pairs_in_scan_order :: "(string \<times> string) list \<Rightarrow> workflow \<Rightarrow> (nat \<times> nat) list" where
  "pairs_in_scan_order fd w =
     concat (map (\<lambda>(i, fw).
       concat (map (\<lambda>label.
         if py_in label (name fw)
         then map (\<lambda>(j, t). (i, j))
                (filter (\<lambda>(j, t). py_in ''RunVasp'' (str_task t)) (enumerate 0 (tasks fw)))
         else [])
        (map fst fd)))
      (enumerate 0 (fws w)))"

section \<open>Example workflows and notions used in the proofs\<close>

text \<open>
  Two task classes that the example workflows use (a task that runs VASP directly and a
  task that writes its input), named by their class paths like the ones above, and a
  job-type map with the two labels of the basic workflow.
\<close>

definition RunVaspDirect :: "(string \<times> pyval) list \<Rightarrow> task" where
  "RunVaspDirect kwargs =
     \<lparr>fw_name = ''{{matmethods.vasp.firetasks.run_calc.RunVaspDirect}}'', params = kwargs\<rparr>"

definition WriteVaspFromIOSet :: "(string \<times> pyval) list \<Rightarrow> task" where
  "WriteVaspFromIOSet kwargs =
     \<lparr>fw_name = ''{{matmethods.vasp.firetasks.write_inputs.WriteVaspFromIOSet}}'', params = kwargs\<rparr>"

definition example_fake_dirs :: "(string \<times> string) list" where
  "example_fake_dirs = [(''structure optimization'', ''/ref/Si_structure_optimization''),
                        (''static'', ''/ref/Si_static'')]"

definition incar_example_wf :: workflow where
  "incar_example_wf =
     Workflow [Firework 1 [WriteVaspFromIOSet [], RunVaspDirect [(''vasp_cmd'', PStr ''vasp'')]] ''static'']
       ''Si''"

definition priority_example_wf :: workflow where
  "priority_example_wf =
     \<lparr>fws = [Firework 1 [RunVaspDirect [(''vasp_cmd'', PStr ''vasp'')]] ''structure optimization'',
             Firework 2 [RunVaspDirect [(''vasp_cmd'', PStr ''vasp'')]] ''static''],
      links = [(1, 2)], wf_name = ''Si''\<rparr>"

definition no_vasp_example_wf :: workflow where
  "no_vasp_example_wf = Workflow [Firework 1 [WriteVaspFromIOSet []] ''static''] ''Si''"

definition custodian_example_result :: workflow where
  "custodian_example_result =
     \<lparr>fws = [Firework 1 [RunVaspDirect [(''vasp_cmd'', PStr ''vasp'')]] ''structure optimization'',
             Firework 2 [RunVaspCustodian [(''vasp_cmd'', PStr ''vasp'')]] ''static''],
      links = [(1, 2)], wf_name = ''Si''\<rparr>"

definition trackers_example_wf :: workflow where
  "trackers_example_wf =
     Workflow [Firework 1 [RunVaspDirect [(''vasp_cmd'', PStr ''vasp'')],
                           RunVaspDirect [(''vasp_cmd'', PStr ''vasp'')]] ''static''] ''Si''"

text \<open>
  The tracker list after \<open>k\<close> rounds of appending the two fixed trackers: unchanged
  (also absent, if it was) for \<open>k = 0\<close>, else the former list followed by \<open>k\<close> copies of
  the two trackers.
\<close>

definition extend_trackers :: "nat \<Rightarrow> fw_spec \<Rightarrow> fw_spec" where
  "extend_trackers k sp =
     (if k = 0 then sp
      else sp\<lparr>s_trackers :=
             Some ((case s_trackers sp of None \<Rightarrow> [] | Some ts \<Rightarrow> ts)
                   @ concat (replicate k [tracker1, tracker2]))\<rparr>)"

definition fake_example_wf :: workflow where
  "fake_example_wf =
     \<lparr>fws = [Firework 1 [WriteVaspFromIOSet [], RunVaspDirect [(''vasp_cmd'', PStr ''vasp'')]]
               ''structure optimization'',
             Firework 2 [WriteVaspFromIOSet [], RunVaspDirect [(''vasp_cmd'', PStr ''vasp'')]]
               ''static''],
      links = [(1, 2)], wf_name = ''Si''\<rparr>"

text \<open>The name and the number of serialized tasks of every Firework of a serialized workflow.\<close>

definition shape :: "workflow_dict \<Rightarrow> (string \<times> nat) list" where
  "shape d = map (\<lambda>fwd. (d_name fwd, length (s_tasks (d_spec fwd)))) (d_fws d)"

definition in_range :: "workflow_dict \<Rightarrow> nat \<times> nat \<Rightarrow> bool" where
  "in_range d p = (fst p < length (shape d) \<and> snd p < snd (shape d ! fst p))"

definition entry :: "workflow_dict \<Rightarrow> nat \<times> nat \<Rightarrow> task" where
  "entry d p = s_tasks (d_spec (d_fws d ! fst p)) ! snd p"


text \<open>
  What the scan sees of a serialized workflow: per Firework, its name and, per serialized
  task, whether the task runs VASP. A pair is located in a serialized workflow when it
  indexes a serialized task that runs VASP.
\<close>

definition profile :: "workflow_dict \<Rightarrow> (string \<times> bool list) list" where
  "profile d = map (\<lambda>fwd. (d_name fwd, map is_runvasp_task (s_tasks (d_spec fwd)))) (d_fws d)"

definition located :: "workflow_dict \<Rightarrow> nat \<times> nat \<Rightarrow> bool" where
  "located d p = (in_range d p \<and> is_runvasp_task (entry d p))"

text \<open>Tasks made by the two substitution powerups.\<close>

definition is_custodian :: "task \<Rightarrow> bool" where
  "is_custodian t = (\<exists>kwargs. t = RunVaspCustodian kwargs)"

definition is_fake :: "task \<Rightarrow> bool" where
  "is_fake t = (\<exists>fake_dir. t = RunVaspFake fake_dir)"

text \<open>
  The two-Firework example after \<^verbatim>\<open>decorate_write_name\<close> (without slug): the serialized
  task lists have the marker task in front and no longer mirror the task lists. And a
  workflow whose first Firework has an empty serialized task list.
\<close>

definition write_name_example_wf :: workflow where
  "write_name_example_wf = decorate_write_name (\<lambda>s. s) fake_example_wf False"


section \<open>Basic facts\<close>

text \<open>The substring test finds exactly the contiguous occurrences.\<close>

lemma py_in_iff: "py_in sub s \<longleftrightarrow> (\<exists>pre post. s = pre @ sub @ post)"
proof (induction s)
  case Nil
  then show ?case by auto
next
  case (Cons c cs)
  show ?case
  proof
    assume "py_in sub (c # cs)"
    then consider "prefix sub (c # cs)" | "py_in sub cs" by auto
    then show "\<exists>pre post. c # cs = pre @ sub @ post"
    proof cases
      case 1
      then obtain post where "c # cs = sub @ post" by (auto simp: prefix_def)
      then have "c # cs = [] @ sub @ post" by simp
      then show ?thesis by blast
    next
      case 2
      with Cons.IH obtain pre post where "cs = pre @ sub @ post" by blast
      then have "c # cs = (c # pre) @ sub @ post" by simp
      then show ?thesis by blast
    qed
  next
    assume "\<exists>pre post. c # cs = pre @ sub @ post"
    then obtain pre post where eq: "c # cs = pre @ sub @ post" by blast
    show "py_in sub (c # cs)"
    proof (cases pre)
      case Nil
      with eq have "prefix sub (c # cs)" by (simp add: prefix_def)
      then show ?thesis by simp
    next
      case (Cons p ps)
      with eq have "cs = ps @ sub @ post" by simp
      with Cons.IH have "py_in sub cs" by blast
      then show ?thesis by simp
    qed
  qed
qed

section \<open>The scan returns the pairs in scan order\<close>

lemma scan_tasks_eq:
  "scan_tasks i j ts acc =
     acc @ map (\<lambda>(j, t). (i, j)) (filter (\<lambda>(j, t). py_in ''RunVasp'' (str_task t)) (enumerate j ts))"
  by (induction ts arbitrary: j acc) (simp_all add: is_runvasp_task_def)

lemma scan_job_types_eq:
  "scan_job_types i fw keys acc =
     acc @ concat (map (\<lambda>label.
         if py_in label (name fw)
         then map (\<lambda>(j, t). (i, j))
                (filter (\<lambda>(j, t). py_in ''RunVasp'' (str_task t)) (enumerate 0 (tasks fw)))
         else []) keys)"
  by (induction keys arbitrary: acc) (simp_all add: scan_tasks_eq)

lemma scan_fws_eq:
  "scan_fws keys i fs acc =
     acc @ concat (map (\<lambda>(i, fw).
       concat (map (\<lambda>label.
         if py_in label (name fw)
         then map (\<lambda>(j, t). (i, j))
                (filter (\<lambda>(j, t). py_in ''RunVasp'' (str_task t)) (enumerate 0 (tasks fw)))
         else []) keys)) (enumerate i fs))"
  by (induction fs arbitrary: i acc) (simp_all add: scan_job_types_eq)

text \<open>
  Claim C6. \<^verbatim>\<open>get_runvasp_fws_and_tasks\<close> is a full scan without short-circuiting: the
  three nested loops, each appending to one list, return exactly the pairs
  (firework index, task index) of the tasks whose string representation contains
  \<^verbatim>\<open>RunVasp\<close>, once for every job-type label contained in the Firework's name, in the
  order Firework, label, task index.
\<close>

theorem get_runvasp_fws_and_tasks_scan:
  "get_runvasp_fws_and_tasks fd w = pairs_in_scan_order fd w"
  by (simp add: get_runvasp_fws_and_tasks_def pairs_in_scan_order_def scan_fws_eq)

text \<open>Membership in the scan's result, and how accumulators pass through it.\<close>

lemma set_row_tasks:
  "set (map (\<lambda>(j, t). (i, j)) (filter (\<lambda>(j, t). py_in ''RunVasp'' (str_task t)) (enumerate 0 ts)))
     = {(i, j) | j. j < length ts \<and> is_runvasp_task (ts ! j)}"
  by (auto simp: in_set_enumerate_eq image_iff is_runvasp_task_def)

lemma set_concat_if:
  "set (concat (map (\<lambda>label. if P label then X else []) keys))
     = (if \<exists>label \<in> set keys. P label then set X else {})"
  by (induction keys) auto

lemma set_scan_job_types:
  "set (scan_job_types i fw keys []) =
     (if \<exists>label \<in> set keys. py_in label (name fw)
      then {(i, j) | j. j < length (tasks fw) \<and> is_runvasp_task (tasks fw ! j)} else {})"
  by (simp only: scan_job_types_eq append_Nil set_concat_if set_row_tasks)

lemma scan_job_types_acc: "scan_job_types i fw keys acc = acc @ scan_job_types i fw keys []"
  by (simp add: scan_job_types_eq)

lemma scan_fws_acc: "scan_fws keys i fs acc = acc @ scan_fws keys i fs []"
  by (simp add: scan_fws_eq)

lemma set_scan_fws:
  "set (scan_fws keys i0 fs []) =
     {(i0 + k, j) | k j. k < length fs \<and> j < length (tasks (fs ! k)) \<and>
        (\<exists>label \<in> set keys. py_in label (name (fs ! k))) \<and> is_runvasp_task (tasks (fs ! k) ! j)}"
proof (induction fs arbitrary: i0)
  case Nil
  then show ?case by simp
next
  case (Cons fw rest)
  have step: "set (scan_fws keys i0 (fw # rest) []) =
      set (scan_job_types i0 fw keys []) \<union> set (scan_fws keys (Suc i0) rest [])"
    using scan_fws_acc [of keys "Suc i0" rest "scan_job_types i0 fw keys []"] by simp
  show ?case
    unfolding step Cons.IH set_scan_job_types
    apply (rule set_eqI)
    apply (auto simp: less_Suc_eq_0_disj)
    done
qed

lemma in_scan:
  "(i, j) \<in> set (get_runvasp_fws_and_tasks fd w) \<longleftrightarrow>
     i < length (fws w) \<and> j < length (tasks (fws w ! i)) \<and>
     (\<exists>label \<in> set (map fst fd). py_in label (name (fws w ! i))) \<and>
     is_runvasp_task (tasks (fws w ! i) ! j)"
  unfolding get_runvasp_fws_and_tasks_def set_scan_fws by auto

section \<open>Which example tasks run VASP\<close>

lemma is_runvasp_RunVaspDirect: "is_runvasp_task (RunVaspDirect kw)"
proof -
  have "str_task (RunVaspDirect kw) =
      ''<{{matmethods.vasp.firetasks.run_calc.'' @ ''RunVasp'' @ (''Direct}}>:'' @ py_repr (PDict kw))"
    by (simp add: str_task_def RunVaspDirect_def)
  then show ?thesis
    unfolding is_runvasp_task_def py_in_iff by (metis (full_types))
qed

lemma not_runvasp_Write: "\<not> is_runvasp_task (WriteVaspFromIOSet [])"
  by (simp add: is_runvasp_task_def str_task_def WriteVaspFromIOSet_def)

section \<open>The LAMMPS builders\<close>

text \<open>
  Claim C9. When the template constructor succeeds, each LAMMPS builder returns a workflow
  with exactly one Firework, whose task list is, in this order, the write-input task made
  from the constructed input (file template for \<^verbatim>\<open>wf_from_input_template\<close>, NVT template
  for \<^verbatim>\<open>nvt_wf\<close>) and the direct-run task whose command is the binary path, then
  \<^verbatim>\<open>" -in "\<close>, then the input file name.
\<close>

theorem lammps_builders_two_tasks:
  assumes "from_file job_name tmpl lammps_data data_filename user_settings ff = Inr inp"
    and "NVTLammpsInput data_input data_filename' user_lammps_settings ff' = Inr inp'"
  shows "(\<exists>w fw. wf_from_input_template from_file fid job_name tmpl lammps_data data_filename
              user_settings ff input_filename lammps_bin = Inr w \<and>
            fws w = [fw] \<and>
            tasks fw = [WritelammpsInputFromDictInput inp input_filename,
                        RunLammpsDirect (lammps_bin @ '' -in '' @ input_filename)] \<and>
            s_tasks (spec fw) = tasks fw) \<and>
         (\<exists>w fw. nvt_wf NVTLammpsInput fid' data_input input_filename' data_filename'
              user_lammps_settings ff' lammps_bin' = Inr w \<and>
            fws w = [fw] \<and>
            tasks fw = [WritelammpsInputFromDictInput inp' input_filename',
                        RunLammpsDirect (lammps_bin' @ '' -in '' @ input_filename')] \<and>
            s_tasks (spec fw) = tasks fw)"
  using assms by (simp add: wf_from_input_template_def nvt_wf_def Workflow_def Firework_def Let_def)

theorem lammps_builders_two_tasks_witness:
  "(\<exists>w fw. wf_from_input_template (\<lambda>j t d n u f. Inr (PDict [(''job'', PStr j)])) 1 ''job'' ''t.json''
              (PStr ''in.data'') ''in.data'' (PDict []) False ''lammps.inp'' ''lammps'' = Inr w \<and>
            fws w = [fw] \<and>
            tasks fw = [WritelammpsInputFromDictInput (PDict [(''job'', PStr ''job'')]) ''lammps.inp'',
                        RunLammpsDirect ''lammps -in lammps.inp''] \<and>
            s_tasks (spec fw) = tasks fw) \<and>
         (\<exists>w fw. nvt_wf (\<lambda>d n u f. Inr (PDict [(''data'', d)])) 1 (PStr ''nvt.data'') ''nvt.inp'' ''nvt.data''
              (PDict []) True ''lmp_serial'' = Inr w \<and>
            fws w = [fw] \<and>
            tasks fw = [WritelammpsInputFromDictInput (PDict [(''data'', PStr ''nvt.data'')]) ''nvt.inp'',
                        RunLammpsDirect ''lmp_serial -in nvt.inp''] \<and>
            s_tasks (spec fw) = tasks fw)"
  using lammps_builders_two_tasks [of "\<lambda>j t d n u f. Inr (PDict [(''job'', PStr j)])" "''job''" "''t.json''"
      "PStr ''in.data''" "''in.data''" "PDict []" False "PDict [(''job'', PStr ''job'')]"
      "\<lambda>d n u f. Inr (PDict [(''data'', d)])" "PStr ''nvt.data''" "''nvt.data''" "PDict []" True
      "PDict [(''data'', PStr ''nvt.data'')]" 1 "''lammps.inp''" "''lammps''" 1 "''nvt.inp''" "''lmp_serial''"]
  by simp

section \<open>Insertion powerups\<close>

lemma incar_example_scan: "get_runvasp_fws_and_tasks example_fake_dirs incar_example_wf = [(0, 1)]"
  by (simp add: get_runvasp_fws_and_tasks_def example_fake_dirs_def incar_example_wf_def
      Workflow_def Firework_def is_runvasp_RunVaspDirect not_runvasp_Write)

text \<open>
  \<^verbatim>\<open>decorate_write_name\<close> puts the marker file-write task at index 0 of the serialized
  task list of every Firework.
\<close>

lemma decorate_write_name_front:
  assumes "i < length (fws w)"
  shows "s_tasks (spec (fws (decorate_write_name g w u) ! i)) =
           write_name_task g u (fws w ! i) # s_tasks (spec (fws w ! i))"
  using assms by (simp add: decorate_write_name_def py_insert_def)

text \<open>
  Claim C1, at a Firework named \<^verbatim>\<open>static\<close> whose tasks are a write-input task and then a
  \<^verbatim>\<open>RunVaspDirect\<close> task (the matched pair is (0, 1)): \<^verbatim>\<open>add_modify_incar\<close> inserts at
  index \<^verbatim>\<open>idx_t - 1\<close>, so the new \<^verbatim>\<open>ModifyIncar\<close> entry lands at the front, and the
  write-input task stands between it and the matched run task. The claim (and the
  docstring: "has a ModifyIncar task just beforehand") asks for the entry immediately
  before the matched task.
\<close>

theorem add_modify_incar_not_adjacent:
  "get_runvasp_fws_and_tasks example_fake_dirs incar_example_wf = [(0, 1)] \<and>
   (\<exists>w'. add_modify_incar example_fake_dirs incar_example_wf ps None = Inr w' \<and>
      map (\<lambda>fw. s_tasks (spec fw)) (fws w') =
        [[ModifyIncar ps, WriteVaspFromIOSet [], RunVaspDirect [(''vasp_cmd'', PStr ''vasp'')]]])"
  unfolding add_modify_incar_def incar_example_scan
  by (simp add: modify_incar_step_def py_get_def name_passes_def
      py_insert_def incar_example_wf_def Workflow_def Firework_def)

section \<open>Priority decoration\<close>

text \<open>
  What \<^verbatim>\<open>decorate_priority\<close> stores: the root priority on the Fireworks of the root set,
  and on every other Firework the child priority when it is a true value, the root
  priority otherwise.
\<close>

lemma decorate_priority_nth:
  assumes "i < length (fws w)"
  shows "s_priority (spec (fws (decorate_priority w r c) ! i)) =
           Some (if fw_id (fws w ! i) \<in> set (root_fw_ids w) then r
                 else if py_truthy c then c else r)"
  using assms by (simp add: decorate_priority_def py_or_def Let_def)

text \<open>
  Claim C3, at a workflow of a root Firework 1 and its child 2, with root priority 5 and
  child priority 0: the child Firework must get the supplied priority 0; the code's
  \<^verbatim>\<open>child_priority or root_priority\<close> takes 0 for "not supplied" and stores 5.
\<close>

theorem decorate_priority_drops_zero:
  "root_fw_ids priority_example_wf = [1] \<and>
   map (\<lambda>fw. (fw_id fw, s_priority (spec fw)))
     (fws (decorate_priority priority_example_wf (PInt 5) (PInt 0))) =
     [(1, Some (PInt 5)), (2, Some (PInt 5))]"
  by (simp add: decorate_priority_def py_or_def root_fw_ids_def priority_example_wf_def Firework_def)

section \<open>Powerups on a workflow without matching tasks\<close>

lemma fw_to_dict_from_dict: "fw_to_dict (fw_from_dict x) = x"
  by (simp add: fw_to_dict_def fw_from_dict_def)

lemma to_dict_from_dict: "to_dict (from_dict d) = d"
  by (simp add: to_dict_def from_dict_def fw_to_dict_from_dict comp_def)

lemma fake_tasks_no_match:
  "\<forall>t \<in> set ts. \<not> is_runvasp_task t \<Longrightarrow> fake_tasks fd job_type i j ts d = Inr d"
  by (induction ts arbitrary: j) simp_all

lemma fake_job_types_no_match:
  "\<forall>label \<in> set keys. py_in label (name fw) \<longrightarrow> (\<forall>t \<in> set (tasks fw). \<not> is_runvasp_task t)
     \<Longrightarrow> fake_job_types fd i fw keys d = Inr d"
  by (induction keys) (simp_all add: fake_tasks_no_match)

lemma fake_fws_no_match:
  "\<forall>fw \<in> set fs. \<forall>label \<in> set (map fst fd).
       py_in label (name fw) \<longrightarrow> (\<forall>t \<in> set (tasks fw). \<not> is_runvasp_task t)
     \<Longrightarrow> fake_fws fd i fs d = Inr d"
  by (induction fs arbitrary: i) (simp_all add: fake_job_types_no_match)

lemma scan_empty_no_match:
  assumes "get_runvasp_fws_and_tasks fd w = []"
  shows "\<forall>fw \<in> set (fws w). \<forall>label \<in> set (map fst fd).
           py_in label (name fw) \<longrightarrow> (\<forall>t \<in> set (tasks fw). \<not> is_runvasp_task t)"
proof (intro ballI impI)
  fix fw label t
  assume fw: "fw \<in> set (fws w)" and l: "label \<in> set (map fst fd)"
    and p: "py_in label (name fw)" and t: "t \<in> set (tasks fw)"
  from fw obtain i where i: "i < length (fws w)" "fws w ! i = fw" by (auto simp: in_set_conv_nth)
  from t obtain j where j: "j < length (tasks fw)" "tasks fw ! j = t" by (auto simp: in_set_conv_nth)
  show "\<not> is_runvasp_task t"
  proof
    assume "is_runvasp_task t"
    with i j l p have "(i, j) \<in> set (get_runvasp_fws_and_tasks fd w)"
      unfolding in_scan by blast
    with assms show False by simp
  qed
qed

text \<open>
  Claim C8. When \<^verbatim>\<open>get_runvasp_fws_and_tasks\<close> returns no pair, \<^verbatim>\<open>use_custodian\<close>,
  \<^verbatim>\<open>make_fake_workflow\<close> and \<^verbatim>\<open>add_trackers\<close> return the input workflow after a
  serialize/deserialize round trip, \<^verbatim>\<open>add_modify_incar\<close> returns the input workflow itself,
  and the round trip leaves the serialized workflow as it was: no task and no tracker is
  modified.
\<close>

theorem no_match_no_change:
  assumes "get_runvasp_fws_and_tasks fd w = []"
  shows "use_custodian fd w fw_name_filter custodian_params = Inr (from_dict (to_dict w)) \<and>
         make_fake_workflow fd w = Inr (from_dict (to_dict w)) \<and>
         add_trackers fd w = Inr (from_dict (to_dict w)) \<and>
         add_modify_incar fd w modify_incar_params fw_name_filter' = Inr w \<and>
         to_dict (from_dict (to_dict w)) = to_dict w"
proof -
  have "fake_fws fd 0 (fws w) (to_dict w) = Inr (to_dict w)"
    using scan_empty_no_match [OF assms] by (rule fake_fws_no_match)
  then have "make_fake_workflow fd w = Inr (from_dict (to_dict w))"
    by (simp add: make_fake_workflow_def)
  moreover have "use_custodian fd w fw_name_filter custodian_params = Inr (from_dict (to_dict w))"
    by (simp add: use_custodian_def assms)
  moreover have "add_trackers fd w = Inr (from_dict (to_dict w))"
    by (simp add: add_trackers_def assms)
  moreover have "add_modify_incar fd w modify_incar_params fw_name_filter' = Inr w"
    by (simp add: add_modify_incar_def assms)
  ultimately show ?thesis by (simp add: to_dict_from_dict)
qed

lemma no_vasp_example_scan: "get_runvasp_fws_and_tasks example_fake_dirs no_vasp_example_wf = []"
  by (simp add: get_runvasp_fws_and_tasks_def example_fake_dirs_def no_vasp_example_wf_def
      Workflow_def Firework_def not_runvasp_Write)

theorem no_match_no_change_witness:
  "get_runvasp_fws_and_tasks example_fake_dirs no_vasp_example_wf = [] \<and>
   use_custodian example_fake_dirs no_vasp_example_wf None None = Inr no_vasp_example_wf \<and>
   make_fake_workflow example_fake_dirs no_vasp_example_wf = Inr no_vasp_example_wf \<and>
   add_trackers example_fake_dirs no_vasp_example_wf = Inr no_vasp_example_wf \<and>
   add_modify_incar example_fake_dirs no_vasp_example_wf [] None = Inr no_vasp_example_wf"
proof -
  have rt: "from_dict (to_dict no_vasp_example_wf) = no_vasp_example_wf"
    by (simp add: from_dict_def to_dict_def fw_from_dict_def fw_to_dict_def no_vasp_example_wf_def
        Workflow_def Firework_def)
  show ?thesis
    using no_match_no_change [OF no_vasp_example_scan, of None None "[]" None]
    by (simp add: rt no_vasp_example_scan)
qed

section \<open>The Firework-name filter of use_custodian\<close>

lemma set_task_frame:
  assumes "set_task d i j v = Inr d'"
  shows "length (d_fws d') = length (d_fws d)"
    and "k \<noteq> i \<Longrightarrow> d_fws d' ! k = d_fws d ! k"
    and "k < length (d_fws d) \<Longrightarrow> d_name (d_fws d' ! k) = d_name (d_fws d ! k)"
  using assms
  by (auto simp: set_task_def py_get_def py_set_def nth_list_update split: if_splits)

lemma custodian_step_frame:
  assumes "custodian_step f cp d p = Inr d'"
  shows "length (d_fws d') = length (d_fws d)"
    and "k < length (d_fws d) \<Longrightarrow> d_name (d_fws d' ! k) = d_name (d_fws d ! k)"
    and "k < length (d_fws d) \<Longrightarrow> \<not> name_passes f (d_name (d_fws d ! k)) \<Longrightarrow> d_fws d' ! k = d_fws d ! k"
proof -
  obtain i j where p: "p = (i, j)" by (cases p)
  show "length (d_fws d') = length (d_fws d)"
    using assms unfolding p custodian_step_def
    by (auto simp: py_get_def split: if_splits sum.splits option.splits dest: set_task_frame(1))
  show "k < length (d_fws d) \<Longrightarrow> d_name (d_fws d' ! k) = d_name (d_fws d ! k)"
    using assms unfolding p custodian_step_def
    by (auto simp: py_get_def split: if_splits sum.splits option.splits dest: set_task_frame(3))
  show "k < length (d_fws d) \<Longrightarrow> \<not> name_passes f (d_name (d_fws d ! k)) \<Longrightarrow> d_fws d' ! k = d_fws d ! k"
    using assms unfolding p custodian_step_def
    by (cases "k = i") (auto simp: py_get_def split: if_splits sum.splits option.splits dest: set_task_frame(2))
qed

lemma custodian_loop_frame:
  assumes "for_each (custodian_step f cp) ps d = Inr d'"
  shows "length (d_fws d') = length (d_fws d) \<and>
         (\<forall>k < length (d_fws d). d_name (d_fws d' ! k) = d_name (d_fws d ! k) \<and>
            (\<not> name_passes f (d_name (d_fws d ! k)) \<longrightarrow> d_fws d' ! k = d_fws d ! k))"
  using assms
proof (induction ps arbitrary: d)
  case Nil
  then show ?case by simp
next
  case (Cons p ps)
  from Cons.prems obtain d1 where s: "custodian_step f cp d p = Inr d1"
    and r: "for_each (custodian_step f cp) ps d1 = Inr d'"
    by (auto split: sum.splits)
  note f = custodian_step_frame [OF s]
  from Cons.IH [OF r] f show ?case by simp
qed

text \<open>
  Claim C5. With a filter substring \<open>F\<close>, a workflow that \<^verbatim>\<open>use_custodian\<close> returns has
  as many Fireworks as the input, and every Firework whose name does not contain \<open>F\<close>
  has the same serialized representation in the returned workflow as in the input.
\<close>

theorem use_custodian_frame:
  assumes "use_custodian fd w (Some F) custodian_params = Inr w'"
  shows "length (fws w') = length (fws w) \<and>
         (\<forall>i < length (fws w). \<not> py_in F (name (fws w ! i)) \<longrightarrow>
            fw_to_dict (fws w' ! i) = fw_to_dict (fws w ! i))"
proof -
  define cp where "cp = (case custodian_params of None \<Rightarrow> [] | Some d \<Rightarrow> if d \<noteq> [] then d else [])"
  from assms obtain d' where
    loop: "for_each (custodian_step (Some F) cp) (get_runvasp_fws_and_tasks fd w) (to_dict w) = Inr d'"
    and w': "w' = from_dict d'"
    by (auto simp: use_custodian_def cp_def Let_def split: sum.splits)
  note fr = custodian_loop_frame [OF loop]
  have len: "length (d_fws d') = length (fws w)"
    using fr by (simp add: to_dict_def)
  show ?thesis
  proof (intro conjI allI impI)
    show "length (fws w') = length (fws w)"
      using len by (simp add: w' from_dict_def)
  next
    fix i assume i: "i < length (fws w)" and n: "\<not> py_in F (name (fws w ! i))"
    from i have "d_fws (to_dict w) ! i = fw_to_dict (fws w ! i)"
      by (simp add: to_dict_def)
    moreover from i n have "\<not> name_passes (Some F) (d_name (d_fws (to_dict w) ! i))"
      by (simp add: name_passes_def to_dict_def fw_to_dict_def)
    ultimately have "d_fws d' ! i = fw_to_dict (fws w ! i)"
      using fr i by (simp add: to_dict_def)
    then show "fw_to_dict (fws w' ! i) = fw_to_dict (fws w ! i)"
      using i len by (simp add: w' from_dict_def fw_to_dict_from_dict)
  qed
qed

lemma priority_example_scan:
  "get_runvasp_fws_and_tasks example_fake_dirs priority_example_wf = [(0, 0), (1, 0)]"
  by (simp add: get_runvasp_fws_and_tasks_def example_fake_dirs_def priority_example_wf_def
      Firework_def is_runvasp_RunVaspDirect)

lemma use_custodian_example:
  "use_custodian example_fake_dirs priority_example_wf (Some ''static'') None =
     Inr custodian_example_result"
  unfolding use_custodian_def priority_example_scan
  by (simp add: custodian_step_def set_task_def py_get_def py_set_def name_passes_def
      to_dict_def from_dict_def fw_to_dict_def fw_from_dict_def priority_example_wf_def
      custodian_example_result_def Firework_def RunVaspDirect_def)

theorem use_custodian_frame_witness:
  "use_custodian example_fake_dirs priority_example_wf (Some ''static'') None =
     Inr custodian_example_result \<and>
   \<not> py_in ''static'' (name (fws priority_example_wf ! 0)) \<and>
   length (fws custodian_example_result) = length (fws priority_example_wf) \<and>
   fw_to_dict (fws custodian_example_result ! 0) = fw_to_dict (fws priority_example_wf ! 0) \<and>
   fw_to_dict (fws custodian_example_result ! 1) \<noteq> fw_to_dict (fws priority_example_wf ! 1)"
proof -
  have n: "\<not> py_in ''static'' (name (fws priority_example_wf ! 0))"
    by (simp add: priority_example_wf_def Firework_def)
  have l: "0 < length (fws priority_example_wf)"
    by (simp add: priority_example_wf_def)
  from use_custodian_frame [OF use_custodian_example] n l
  have "length (fws custodian_example_result) = length (fws priority_example_wf)"
    and "fw_to_dict (fws custodian_example_result ! 0) = fw_to_dict (fws priority_example_wf ! 0)"
    by blast+
  moreover have "fw_to_dict (fws custodian_example_result ! 1) \<noteq> fw_to_dict (fws priority_example_wf ! 1)"
    by (simp add: priority_example_wf_def custodian_example_result_def Firework_def fw_to_dict_def
        RunVaspDirect_def RunVaspCustodian_def)
  ultimately show ?thesis
    using use_custodian_example n by blast
qed

section \<open>Tracker augmentation\<close>

lemma extend_trackers_Suc:
  "extend_trackers n (sp\<lparr>s_trackers := (case s_trackers sp of
                         Some ts \<Rightarrow> Some (ts @ [tracker1, tracker2])
                       | None \<Rightarrow> Some [tracker1, tracker2])\<rparr>) = extend_trackers (Suc n) sp"
  by (cases "s_trackers sp") (simp_all add: extend_trackers_def)

lemma trackers_step_eq:
  assumes "i < length (d_fws d)"
  shows "trackers_step d (i, j) =
           Inr (d\<lparr>d_fws := (d_fws d)[i := (d_fws d ! i)\<lparr>d_spec :=
                  (d_spec (d_fws d ! i))\<lparr>s_trackers :=
                      (case s_trackers (d_spec (d_fws d ! i)) of
                         Some ts \<Rightarrow> Some (ts @ [tracker1, tracker2])
                       | None \<Rightarrow> Some [tracker1, tracker2])\<rparr>\<rparr>]\<rparr>)"
  using assms by (simp add: trackers_step_def py_get_def)

lemma trackers_loop:
  assumes "\<forall>p \<in> set ps. fst p < length (d_fws d)"
  shows "\<exists>d'. for_each trackers_step ps d = Inr d' \<and>
           length (d_fws d') = length (d_fws d) \<and>
           d_links d' = d_links d \<and> d_wf_name d' = d_wf_name d \<and>
           (\<forall>i < length (d_fws d).
              d_fws d' ! i = (d_fws d ! i)\<lparr>d_spec :=
                 extend_trackers (length (filter (\<lambda>p. fst p = i) ps)) (d_spec (d_fws d ! i))\<rparr>)"
  using assms
proof (induction ps arbitrary: d)
  case Nil
  then show ?case by (simp add: extend_trackers_def)
next
  case (Cons p ps)
  obtain i0 j0 where p: "p = (i0, j0)" by (cases p)
  from Cons.prems have i0: "i0 < length (d_fws d)" by (simp add: p)
  define d1 where "d1 = d\<lparr>d_fws := (d_fws d)[i0 := (d_fws d ! i0)\<lparr>d_spec :=
                  (d_spec (d_fws d ! i0))\<lparr>s_trackers :=
                      (case s_trackers (d_spec (d_fws d ! i0)) of
                         Some ts \<Rightarrow> Some (ts @ [tracker1, tracker2])
                       | None \<Rightarrow> Some [tracker1, tracker2])\<rparr>\<rparr>]\<rparr>"
  have step: "trackers_step d p = Inr d1"
    unfolding p d1_def by (rule trackers_step_eq [OF i0])
  have len1: "length (d_fws d1) = length (d_fws d)" by (simp add: d1_def)
  from Cons.prems have "\<forall>p \<in> set ps. fst p < length (d_fws d1)" by (simp add: len1)
  from Cons.IH [OF this] obtain d' where
    r: "for_each trackers_step ps d1 = Inr d'"
    and l: "length (d_fws d') = length (d_fws d1)"
    and k: "d_links d' = d_links d1" "d_wf_name d' = d_wf_name d1"
    and e: "\<forall>i < length (d_fws d1).
              d_fws d' ! i = (d_fws d1 ! i)\<lparr>d_spec :=
                 extend_trackers (length (filter (\<lambda>p. fst p = i) ps)) (d_spec (d_fws d1 ! i))\<rparr>"
    by blast
  have "for_each trackers_step (p # ps) d = Inr d'" by (simp add: step r)
  moreover have "length (d_fws d') = length (d_fws d)" by (simp add: l len1)
  moreover have "d_links d' = d_links d" "d_wf_name d' = d_wf_name d" by (simp_all add: k d1_def)
  moreover have "\<forall>i < length (d_fws d).
              d_fws d' ! i = (d_fws d ! i)\<lparr>d_spec :=
                 extend_trackers (length (filter (\<lambda>p. fst p = i) (p # ps))) (d_spec (d_fws d ! i))\<rparr>"
  proof (intro allI impI)
    fix i assume i: "i < length (d_fws d)"
    with e len1 have ei: "d_fws d' ! i = (d_fws d1 ! i)\<lparr>d_spec :=
                 extend_trackers (length (filter (\<lambda>p. fst p = i) ps)) (d_spec (d_fws d1 ! i))\<rparr>"
      by simp
    show "d_fws d' ! i = (d_fws d ! i)\<lparr>d_spec :=
                 extend_trackers (length (filter (\<lambda>p. fst p = i) (p # ps))) (d_spec (d_fws d ! i))\<rparr>"
    proof (cases "i = i0")
      case True
      then show ?thesis
        using i ei by (simp add: p d1_def extend_trackers_Suc)
    next
      case False
      then show ?thesis
        using i ei by (simp add: p d1_def)
    qed
  qed
  ultimately show ?case by blast
qed

lemma scan_fst_bound: "\<forall>p \<in> set (get_runvasp_fws_and_tasks fd w). fst p < length (d_fws (to_dict w))"
proof
  fix p assume "p \<in> set (get_runvasp_fws_and_tasks fd w)"
  then have "(fst p, snd p) \<in> set (get_runvasp_fws_and_tasks fd w)" by simp
  then show "fst p < length (d_fws (to_dict w))"
    unfolding in_scan by (simp add: to_dict_def)
qed

text \<open>
  Claim C2, as amended. \<^verbatim>\<open>add_trackers\<close> always returns a workflow with the same number of
  Fireworks, and the serialized form of each Firework differs from the input's only in
  its tracker list: with \<open>k\<close> the number of pairs that \<^verbatim>\<open>get_runvasp_fws_and_tasks\<close>
  returns for this Firework, the tracker state is unchanged when \<open>k = 0\<close>, and otherwise
  the list is the former list (empty if the key was absent) followed by \<open>k\<close> copies of
  the two fixed trackers (OUTCAR and OSZICAR, 25 lines each). The former list is kept as a
  prefix; the two trackers are appended once per matched pair, not once per Firework.
\<close>

theorem add_trackers_per_pair:
  "\<exists>w'. add_trackers fd w = Inr w' \<and> length (fws w') = length (fws w) \<and>
     (\<forall>i < length (fws w).
        fw_to_dict (fws w' ! i) =
          (fw_to_dict (fws w ! i))\<lparr>d_spec :=
             extend_trackers (length (filter (\<lambda>p. fst p = i) (get_runvasp_fws_and_tasks fd w)))
               (spec (fws w ! i))\<rparr>)"
proof -
  from trackers_loop [OF scan_fst_bound, of fd w] obtain d' where
    r: "for_each trackers_step (get_runvasp_fws_and_tasks fd w) (to_dict w) = Inr d'"
    and l: "length (d_fws d') = length (d_fws (to_dict w))"
    and e: "\<forall>i < length (d_fws (to_dict w)).
              d_fws d' ! i = (d_fws (to_dict w) ! i)\<lparr>d_spec :=
                 extend_trackers (length (filter (\<lambda>p. fst p = i) (get_runvasp_fws_and_tasks fd w)))
                   (d_spec (d_fws (to_dict w) ! i))\<rparr>"
    by blast
  have "add_trackers fd w = Inr (from_dict d')" by (simp add: add_trackers_def r)
  moreover have "length (fws (from_dict d')) = length (fws w)"
    using l by (simp add: from_dict_def to_dict_def)
  moreover have "\<forall>i < length (fws w).
        fw_to_dict (fws (from_dict d') ! i) =
          (fw_to_dict (fws w ! i))\<lparr>d_spec :=
             extend_trackers (length (filter (\<lambda>p. fst p = i) (get_runvasp_fws_and_tasks fd w)))
               (spec (fws w ! i))\<rparr>"
  proof (intro allI impI)
    fix i assume i: "i < length (fws w)"
    then have "i < length (d_fws d')" using l by (simp add: to_dict_def)
    then have "fw_to_dict (fws (from_dict d') ! i) = d_fws d' ! i"
      by (simp add: from_dict_def fw_to_dict_from_dict)
    also have "\<dots> = (d_fws (to_dict w) ! i)\<lparr>d_spec :=
                 extend_trackers (length (filter (\<lambda>p. fst p = i) (get_runvasp_fws_and_tasks fd w)))
                   (d_spec (d_fws (to_dict w) ! i))\<rparr>"
      using e i by (simp add: to_dict_def)
    also have "\<dots> = (fw_to_dict (fws w ! i))\<lparr>d_spec :=
             extend_trackers (length (filter (\<lambda>p. fst p = i) (get_runvasp_fws_and_tasks fd w)))
               (spec (fws w ! i))\<rparr>"
      using i by (simp add: to_dict_def fw_to_dict_def)
    finally show "fw_to_dict (fws (from_dict d') ! i) =
          (fw_to_dict (fws w ! i))\<lparr>d_spec :=
             extend_trackers (length (filter (\<lambda>p. fst p = i) (get_runvasp_fws_and_tasks fd w)))
               (spec (fws w ! i))\<rparr>" .
  qed
  ultimately show ?thesis by blast
qed

lemma trackers_example_scan:
  "get_runvasp_fws_and_tasks example_fake_dirs trackers_example_wf = [(0, 0), (0, 1)]"
  by (simp add: get_runvasp_fws_and_tasks_def example_fake_dirs_def trackers_example_wf_def
      Workflow_def Firework_def is_runvasp_RunVaspDirect)

text \<open>
  A Firework named \<^verbatim>\<open>static\<close> with two \<^verbatim>\<open>RunVaspDirect\<close> tasks and no trackers: one
  call of \<^verbatim>\<open>add_trackers\<close> appends the two fixed trackers twice.
\<close>

theorem add_trackers_twice_counterexample:
  "get_runvasp_fws_and_tasks example_fake_dirs trackers_example_wf = [(0, 0), (0, 1)] \<and>
   s_trackers (spec (fws trackers_example_wf ! 0)) = None \<and>
   (\<exists>w'. add_trackers example_fake_dirs trackers_example_wf = Inr w' \<and>
      s_trackers (spec (fws w' ! 0)) = Some [tracker1, tracker2, tracker1, tracker2] \<and>
      s_trackers (spec (fws w' ! 0)) \<noteq> Some [tracker1, tracker2])"
  unfolding add_trackers_def trackers_example_scan
  by (simp add: trackers_step_def py_get_def to_dict_def from_dict_def fw_to_dict_def
      fw_from_dict_def trackers_example_wf_def Workflow_def Firework_def)

theorem add_trackers_per_pair_witness:
  "\<exists>w'. add_trackers example_fake_dirs trackers_example_wf = Inr w' \<and>
      length (fws w') = length (fws trackers_example_wf) \<and>
      s_trackers (d_spec (fw_to_dict (fws w' ! 0))) = Some [tracker1, tracker2, tracker1, tracker2]"
proof -
  from add_trackers_per_pair [of example_fake_dirs trackers_example_wf] obtain w' where
    a: "add_trackers example_fake_dirs trackers_example_wf = Inr w'"
    and l: "length (fws w') = length (fws trackers_example_wf)"
    and e: "\<forall>i < length (fws trackers_example_wf).
        fw_to_dict (fws w' ! i) =
          (fw_to_dict (fws trackers_example_wf ! i))\<lparr>d_spec :=
             extend_trackers (length (filter (\<lambda>p. fst p = i)
                 (get_runvasp_fws_and_tasks example_fake_dirs trackers_example_wf)))
               (spec (fws trackers_example_wf ! i))\<rparr>"
    by blast
  have "0 < length (fws trackers_example_wf)" by (simp add: trackers_example_wf_def Workflow_def)
  with e have "fw_to_dict (fws w' ! 0) =
          (fw_to_dict (fws trackers_example_wf ! 0))\<lparr>d_spec :=
             extend_trackers (length (filter (\<lambda>p. fst p = 0)
                 (get_runvasp_fws_and_tasks example_fake_dirs trackers_example_wf)))
               (spec (fws trackers_example_wf ! 0))\<rparr>"
    by blast
  then have "fw_to_dict (fws w' ! 0) =
          (fw_to_dict (fws trackers_example_wf ! 0))\<lparr>d_spec :=
             extend_trackers (Suc (Suc 0)) (spec (fws trackers_example_wf ! 0))\<rparr>"
    unfolding trackers_example_scan by simp
  then have "s_trackers (d_spec (fw_to_dict (fws w' ! 0))) = Some [tracker1, tracker2, tracker1, tracker2]"
    by (simp add: extend_trackers_def trackers_example_wf_def Workflow_def Firework_def)
  with a l show ?thesis by blast
qed

section \<open>The fake-replay powerup on the two-Firework workflow\<close>


lemma set_task_ok:
  assumes "i < length (d_fws d)" and "j < length (s_tasks (d_spec (d_fws d ! i)))"
  shows "set_task d i j v =
           Inr (d\<lparr>d_fws := (d_fws d)[i := (d_fws d ! i)\<lparr>d_spec :=
                  (d_spec (d_fws d ! i))\<lparr>s_tasks := (s_tasks (d_spec (d_fws d ! i)))[j := v]\<rparr>\<rparr>]\<rparr>)"
  using assms by (simp add: set_task_def py_get_def py_set_def)




lemma write_name_example_scan:
  "get_runvasp_fws_and_tasks example_fake_dirs write_name_example_wf = [(0, 1), (1, 1)]"
  by (simp add: get_runvasp_fws_and_tasks_def example_fake_dirs_def write_name_example_wf_def
      decorate_write_name_def fake_example_wf_def
      Firework_def is_runvasp_RunVaspDirect not_runvasp_Write)


section \<open>The unguarded lookup of use_custodian\<close>

lemma in_range_iff:
  "in_range d (a, b) \<longleftrightarrow> a < length (d_fws d) \<and> b < length (s_tasks (d_spec (d_fws d ! a)))"
  by (auto simp: in_range_def shape_def)

lemma shape_nth:
  "shape d' = shape d \<Longrightarrow> k < length (d_fws d) \<Longrightarrow>
     d_name (d_fws d' ! k) = d_name (d_fws d ! k) \<and>
     length (s_tasks (d_spec (d_fws d' ! k))) = length (s_tasks (d_spec (d_fws d ! k)))"
proof -
  assume s: "shape d' = shape d" and k: "k < length (d_fws d)"
  from s have l: "length (d_fws d') = length (d_fws d)"
    by (metis length_map shape_def)
  from s have "shape d' ! k = shape d ! k" by simp
  with k l show ?thesis by (simp add: shape_def)
qed

lemma shape_length: "shape d' = shape d \<Longrightarrow> length (d_fws d') = length (d_fws d)"
  by (metis length_map shape_def)

lemma in_range_shape: "shape d' = shape d \<Longrightarrow> in_range d' p = in_range d p"
  by (simp add: in_range_def)

lemma set_task_in_range:
  assumes "in_range d (a, b)"
  shows "\<exists>d'. set_task d a b v = Inr d' \<and> shape d' = shape d \<and> entry d' (a, b) = v \<and>
           (\<forall>q. q \<noteq> (a, b) \<longrightarrow> entry d' q = entry d q)"
proof -
  from assms have a: "a < length (d_fws d)" and b: "b < length (s_tasks (d_spec (d_fws d ! a)))"
    by (simp_all add: in_range_iff)
  define d' where "d' = d\<lparr>d_fws := (d_fws d)[a := (d_fws d ! a)\<lparr>d_spec :=
                  (d_spec (d_fws d ! a))\<lparr>s_tasks := (s_tasks (d_spec (d_fws d ! a)))[b := v]\<rparr>\<rparr>]\<rparr>"
  have r: "set_task d a b v = Inr d'"
    unfolding d'_def by (rule set_task_ok [OF a b])
  have s: "shape d' = shape d"
    unfolding shape_def d'_def using a
    by (intro nth_equalityI) (auto simp: nth_list_update)
  have e: "entry d' (a, b) = v"
    using a b by (simp add: entry_def d'_def)
  have o: "\<forall>q. q \<noteq> (a, b) \<longrightarrow> entry d' q = entry d q"
  proof (intro allI impI)
    fix q :: "nat \<times> nat" assume q: "q \<noteq> (a, b)"
    obtain k l where ql: "q = (k, l)" by (cases q)
    show "entry d' q = entry d q"
    proof (cases "k = a")
      case True
      with q ql have "l \<noteq> b" by simp
      with True a show ?thesis by (simp add: entry_def d'_def ql)
    next
      case False
      then show ?thesis by (simp add: entry_def d'_def ql)
    qed
  qed
  from r s e o show ?thesis by blast
qed






lemma scan_in_range:
  assumes "tasks_mirrored w"
  shows "\<forall>p \<in> set (get_runvasp_fws_and_tasks fd w). in_range (to_dict w) p"
proof
  fix p assume "p \<in> set (get_runvasp_fws_and_tasks fd w)"
  then have "(fst p, snd p) \<in> set (get_runvasp_fws_and_tasks fd w)" by simp
  then have a: "fst p < length (fws w)" and b: "snd p < length (tasks (fws w ! fst p))"
    unfolding in_scan by simp_all
  from assms a have "s_tasks (spec (fws w ! fst p)) = tasks (fws w ! fst p)"
    by (simp add: tasks_mirrored_def list_all_length)
  with a b show "in_range (to_dict w) p"
    by (simp add: in_range_def shape_def to_dict_def fw_to_dict_def)
qed







section \<open>Substituted tasks still run VASP\<close>

lemma is_runvasp_RunVaspCustodian: "is_runvasp_task (RunVaspCustodian kw)"
proof -
  have "str_task (RunVaspCustodian kw) =
      ''<{{matmethods.vasp.firetasks.run_calc.'' @ ''RunVasp'' @ (''Custodian}}>:'' @ py_repr (PDict kw))"
    by (simp add: str_task_def RunVaspCustodian_def)
  then show ?thesis
    unfolding is_runvasp_task_def py_in_iff by (metis (full_types))
qed

lemma is_runvasp_RunVaspFake: "is_runvasp_task (RunVaspFake dir)"
proof -
  have "str_task (RunVaspFake dir) =
      ''<{{matmethods.vasp.tests.vasp_fake.'' @ ''RunVasp'' @
        (''Fake}}>:'' @ py_repr (PDict [(''fake_dir'', PStr dir)]))"
    by (simp add: str_task_def RunVaspFake_def)
  then show ?thesis
    unfolding is_runvasp_task_def py_in_iff by (metis (full_types))
qed

lemma located_profile:
  assumes "profile d' = profile d"
  shows "located d' p = located d p"
proof -
  have key: "located e p \<longleftrightarrow>
      fst p < length (profile e) \<and> snd p < length (snd (profile e ! fst p)) \<and>
      snd (profile e ! fst p) ! snd p" for e
    by (auto simp: located_def in_range_def shape_def entry_def profile_def)
  show ?thesis by (simp add: key assms)
qed

lemma set_task_profile:
  assumes l: "located d (a, b)" and v: "is_runvasp_task v"
  shows "\<exists>d'. set_task d a b v = Inr d' \<and> profile d' = profile d"
proof -
  from l have r: "in_range d (a, b)" and e: "is_runvasp_task (entry d (a, b))"
    by (simp_all add: located_def)
  from r have a: "a < length (d_fws d)" and b: "b < length (s_tasks (d_spec (d_fws d ! a)))"
    by (simp_all add: in_range_iff)
  define d' where "d' = d\<lparr>d_fws := (d_fws d)[a := (d_fws d ! a)\<lparr>d_spec :=
                  (d_spec (d_fws d ! a))\<lparr>s_tasks := (s_tasks (d_spec (d_fws d ! a)))[b := v]\<rparr>\<rparr>]\<rparr>"
  have s: "set_task d a b v = Inr d'"
    unfolding d'_def by (rule set_task_ok [OF a b])
  have m: "map is_runvasp_task ((s_tasks (d_spec (d_fws d ! a)))[b := v]) =
           map is_runvasp_task (s_tasks (d_spec (d_fws d ! a)))"
    using b e v by (intro nth_equalityI) (auto simp: nth_list_update entry_def)
  have "profile d' = profile d"
    unfolding profile_def d'_def using a m
    by (intro nth_equalityI) (auto simp: nth_list_update)
  with s show ?thesis by blast
qed

lemma custodian_step_profile:
  assumes "located d (a, b)" and "custodian_step f cp d (a, b) = Inr d'"
  shows "profile d' = profile d"
proof -
  have *: "set_task d a b (RunVaspCustodian kw) = Inr d' \<Longrightarrow> profile d' = profile d" for kw
    using set_task_profile [OF assms(1) is_runvasp_RunVaspCustodian, of kw] by auto
  from assms(2) show ?thesis
    by (auto simp: custodian_step_def split: sum.splits if_splits option.splits dest: *)
qed

lemma custodian_loop_profile:
  assumes "\<forall>p \<in> set ps. located d p" and "for_each (custodian_step f cp) ps d = Inr d'"
  shows "profile d' = profile d"
  using assms
proof (induction ps arbitrary: d)
  case Nil
  then show ?case by simp
next
  case (Cons p ps)
  obtain a b where p: "p = (a, b)" by (cases p)
  from Cons.prems(2) obtain d1 where s: "custodian_step f cp d (a, b) = Inr d1"
    and r: "for_each (custodian_step f cp) ps d1 = Inr d'"
    by (auto simp: p split: sum.splits)
  from Cons.prems(1) have "located d (a, b)" by (simp add: p)
  from custodian_step_profile [OF this s] have p1: "profile d1 = profile d" .
  from Cons.prems(1) have "\<forall>p \<in> set ps. located d1 p"
    by (simp add: located_profile [OF p1])
  from Cons.IH [OF this r] p1 show ?case by simp
qed

lemma fake_tasks_profile:
  assumes "\<forall>k < length ts. is_runvasp_task (ts ! k) \<longrightarrow> located d (i, j + k)"
    and "fake_tasks fd jt i j ts d = Inr d'"
  shows "profile d' = profile d"
  using assms
proof (induction ts arbitrary: j d)
  case Nil
  then show ?case by simp
next
  case (Cons t ts)
  have rest: "\<forall>k < length ts. is_runvasp_task (ts ! k) \<longrightarrow> located d (i, Suc j + k)"
  proof (intro allI impI)
    fix k assume "k < length ts" "is_runvasp_task (ts ! k)"
    with Cons.prems(1) [rule_format, of "Suc k"] show "located d (i, Suc j + k)" by simp
  qed
  show ?case
  proof (cases "is_runvasp_task t")
    case False
    with Cons.prems(2) have "fake_tasks fd jt i (Suc j) ts d = Inr d'" by simp
    from Cons.IH [OF rest this] show ?thesis .
  next
    case True
    with Cons.prems(1) [rule_format, of 0] have l: "located d (i, j)" by simp
    from True Cons.prems(2) obtain dir d1 where
      s: "set_task d i j (RunVaspFake dir) = Inr d1"
      and r: "fake_tasks fd jt i (Suc j) ts d1 = Inr d'"
      by (auto split: option.splits sum.splits)
    from set_task_profile [OF l is_runvasp_RunVaspFake, of dir] s
    have p1: "profile d1 = profile d" by simp
    from rest have "\<forall>k < length ts. is_runvasp_task (ts ! k) \<longrightarrow> located d1 (i, Suc j + k)"
      by (simp add: located_profile [OF p1])
    from Cons.IH [OF this r] p1 show ?thesis by simp
  qed
qed

lemma fake_job_types_profile:
  assumes "\<forall>k < length (tasks fw). is_runvasp_task (tasks fw ! k) \<longrightarrow> located d (i, k)"
    and "fake_job_types fd i fw keys d = Inr d'"
  shows "profile d' = profile d"
  using assms
proof (induction keys arbitrary: d)
  case Nil
  then show ?case by simp
next
  case (Cons jt keys)
  show ?case
  proof (cases "py_in jt (name fw)")
    case False
    with Cons.prems(2) have "fake_job_types fd i fw keys d = Inr d'" by simp
    from Cons.IH [OF Cons.prems(1) this] show ?thesis .
  next
    case True
    with Cons.prems(2) obtain d1 where
      s: "fake_tasks fd jt i 0 (tasks fw) d = Inr d1"
      and r: "fake_job_types fd i fw keys d1 = Inr d'"
      by (auto split: sum.splits)
    from Cons.prems(1) have "\<forall>k < length (tasks fw). is_runvasp_task (tasks fw ! k) \<longrightarrow> located d (i, 0 + k)"
      by simp
    from fake_tasks_profile [OF this s] have p1: "profile d1 = profile d" .
    from Cons.prems(1) have "\<forall>k < length (tasks fw). is_runvasp_task (tasks fw ! k) \<longrightarrow> located d1 (i, k)"
      by (simp add: located_profile [OF p1])
    from Cons.IH [OF this r] p1 show ?thesis by simp
  qed
qed

lemma fake_fws_profile:
  assumes "\<forall>m < length fs. \<forall>k < length (tasks (fs ! m)).
             is_runvasp_task (tasks (fs ! m) ! k) \<longrightarrow> located d (i + m, k)"
    and "fake_fws fd i fs d = Inr d'"
  shows "profile d' = profile d"
  using assms
proof (induction fs arbitrary: i d)
  case Nil
  then show ?case by simp
next
  case (Cons fw fs)
  from Cons.prems(2) obtain d1 where
    s: "fake_job_types fd i fw (map fst fd) d = Inr d1"
    and r: "fake_fws fd (Suc i) fs d1 = Inr d'"
    by (auto split: sum.splits)
  from Cons.prems(1) [rule_format, of 0]
  have "\<forall>k < length (tasks fw). is_runvasp_task (tasks fw ! k) \<longrightarrow> located d (i, k)" by simp
  from fake_job_types_profile [OF this s] have p1: "profile d1 = profile d" .
  have "\<forall>m < length fs. \<forall>k < length (tasks (fs ! m)).
             is_runvasp_task (tasks (fs ! m) ! k) \<longrightarrow> located d1 (Suc i + m, k)"
  proof (intro allI impI)
    fix m k assume "m < length fs" "k < length (tasks (fs ! m))" "is_runvasp_task (tasks (fs ! m) ! k)"
    with Cons.prems(1) [rule_format, of "Suc m" k] show "located d1 (Suc i + m, k)"
      by (simp add: located_profile [OF p1])
  qed
  from Cons.IH [OF this r] p1 show ?case by simp
qed

lemma scan_tasks_cong:
  "map is_runvasp_task ts = map is_runvasp_task ts' \<Longrightarrow> scan_tasks i j ts acc = scan_tasks i j ts' acc"
proof (induction ts arbitrary: ts' j acc)
  case Nil
  then show ?case by simp
next
  case (Cons t ts)
  then obtain t' us where "ts' = t' # us" by (cases ts') auto
  with Cons show ?case by simp
qed

lemma scan_job_types_cong:
  "name fw = name fw' \<Longrightarrow> map is_runvasp_task (tasks fw) = map is_runvasp_task (tasks fw') \<Longrightarrow>
     scan_job_types i fw keys acc = scan_job_types i fw' keys acc"
proof (induction keys arbitrary: acc)
  case Nil
  then show ?case by simp
next
  case (Cons jt keys)
  from Cons.prems(2) have "scan_tasks i 0 (tasks fw) acc = scan_tasks i 0 (tasks fw') acc"
    by (rule scan_tasks_cong)
  with Cons show ?case by simp
qed

lemma scan_fws_cong:
  "map (\<lambda>fw. (name fw, map is_runvasp_task (tasks fw))) fs =
   map (\<lambda>fw. (name fw, map is_runvasp_task (tasks fw))) fs' \<Longrightarrow>
     scan_fws keys i fs acc = scan_fws keys i fs' acc"
proof (induction fs arbitrary: fs' i acc)
  case Nil
  then show ?case by simp
next
  case (Cons fw fs)
  then obtain fw' us where f: "fs' = fw' # us" by (cases fs') auto
  with Cons.prems have "name fw = name fw'"
    and "map is_runvasp_task (tasks fw) = map is_runvasp_task (tasks fw')"
    and "map (\<lambda>fw. (name fw, map is_runvasp_task (tasks fw))) fs =
         map (\<lambda>fw. (name fw, map is_runvasp_task (tasks fw))) us"
    by simp_all
  then show ?case
    using Cons.IH [of us] scan_job_types_cong [of fw fw' i keys acc] by (simp add: f)
qed

lemma scan_from_dict:
  assumes "tasks_mirrored w" and "profile d' = profile (to_dict w)"
  shows "get_runvasp_fws_and_tasks fd (from_dict d') = get_runvasp_fws_and_tasks fd w"
proof -
  have a: "map (\<lambda>fw. (name fw, map is_runvasp_task (tasks fw))) (fws (from_dict d')) = profile d'"
    by (simp add: from_dict_def profile_def fw_from_dict_def comp_def)
  have b: "map (\<lambda>fw. (name fw, map is_runvasp_task (tasks fw))) (fws w) = profile (to_dict w)"
    using assms(1)
    by (simp add: to_dict_def profile_def fw_to_dict_def comp_def tasks_mirrored_def list_all_iff)
  show ?thesis
    unfolding get_runvasp_fws_and_tasks_def
    by (rule scan_fws_cong) (simp add: a b assms(2))
qed

lemma scan_located:
  assumes "tasks_mirrored w"
  shows "\<forall>p \<in> set (get_runvasp_fws_and_tasks fd w). located (to_dict w) p"
proof
  fix p assume p: "p \<in> set (get_runvasp_fws_and_tasks fd w)"
  then have "(fst p, snd p) \<in> set (get_runvasp_fws_and_tasks fd w)" by simp
  then have a: "fst p < length (fws w)" and r: "is_runvasp_task (tasks (fws w ! fst p) ! snd p)"
    unfolding in_scan by simp_all
  from assms a have "s_tasks (spec (fws w ! fst p)) = tasks (fws w ! fst p)"
    by (simp add: tasks_mirrored_def list_all_length)
  with a r have "is_runvasp_task (entry (to_dict w) p)"
    by (simp add: entry_def to_dict_def fw_to_dict_def)
  with scan_in_range [OF assms] p show "located (to_dict w) p"
    by (simp add: located_def)
qed

lemma tasks_located:
  assumes "tasks_mirrored w"
  shows "\<forall>m < length (fws w). \<forall>k < length (tasks (fws w ! m)).
           is_runvasp_task (tasks (fws w ! m) ! k) \<longrightarrow> located (to_dict w) (0 + m, k)"
proof (intro allI impI)
  fix m k assume m: "m < length (fws w)" and k: "k < length (tasks (fws w ! m))"
    and r: "is_runvasp_task (tasks (fws w ! m) ! k)"
  from assms m have "s_tasks (spec (fws w ! m)) = tasks (fws w ! m)"
    by (simp add: tasks_mirrored_def list_all_length)
  with m k r show "located (to_dict w) (0 + m, k)"
    by (simp add: located_def in_range_def shape_def entry_def to_dict_def fw_to_dict_def)
qed

text \<open>
  On a workflow whose serialized task lists mirror its task lists, the scan of the
  workflow that a substitution powerup returns gives the same pairs as the scan of the
  input.
\<close>

lemma scan_unchanged_when_mirrored:
  "(tasks_mirrored w \<and> use_custodian fd w fw_name_filter custodian_params = Inr w'
      \<longrightarrow> get_runvasp_fws_and_tasks fd w' = get_runvasp_fws_and_tasks fd w) \<and>
   (tasks_mirrored w \<and> make_fake_workflow fd w = Inr w''
      \<longrightarrow> get_runvasp_fws_and_tasks fd w'' = get_runvasp_fws_and_tasks fd w)"
proof (intro conjI impI)
  assume h: "tasks_mirrored w \<and> use_custodian fd w fw_name_filter custodian_params = Inr w'"
  define cp where "cp = (case custodian_params of None \<Rightarrow> [] | Some d \<Rightarrow> if d \<noteq> [] then d else [])"
  from h obtain d' where
    loop: "for_each (custodian_step fw_name_filter cp) (get_runvasp_fws_and_tasks fd w) (to_dict w) = Inr d'"
    and w': "w' = from_dict d'"
    by (auto simp: use_custodian_def cp_def Let_def split: sum.splits)
  from h have m: "tasks_mirrored w" by simp
  from custodian_loop_profile [OF scan_located [OF m] loop]
  show "get_runvasp_fws_and_tasks fd w' = get_runvasp_fws_and_tasks fd w"
    unfolding w' by (rule scan_from_dict [OF m])
next
  assume h: "tasks_mirrored w \<and> make_fake_workflow fd w = Inr w''"
  then obtain d' where loop: "fake_fws fd 0 (fws w) (to_dict w) = Inr d'" and w'': "w'' = from_dict d'"
    by (auto simp: make_fake_workflow_def split: sum.splits)
  from h have m: "tasks_mirrored w" by simp
  from fake_fws_profile [OF tasks_located [OF m] loop]
  show "get_runvasp_fws_and_tasks fd w'' = get_runvasp_fws_and_tasks fd w"
    unfolding w'' by (rule scan_from_dict [OF m])
qed

text \<open>What a returned substitution powerup has done to the serialized workflow.\<close>

lemma set_task_result:
  assumes "set_task d a b v = Inr d'"
  shows "in_range d (a, b) \<and> shape d' = shape d \<and> entry d' (a, b) = v \<and>
         (\<forall>q. q \<noteq> (a, b) \<longrightarrow> entry d' q = entry d q)"
proof -
  from assms have r: "in_range d (a, b)"
    by (auto simp: set_task_def py_get_def py_set_def in_range_iff split: if_splits)
  from set_task_in_range [OF r, of v] assms show ?thesis using r by auto
qed

lemma custodian_step_result:
  assumes "custodian_step f cp d (a, b) = Inr d'"
  shows "shape d' = shape d \<and>
         (\<forall>q. is_custodian (entry d q) \<longrightarrow> is_custodian (entry d' q)) \<and>
         (name_passes f (d_name (d_fws d ! a)) \<longrightarrow> in_range d (a, b) \<and> is_custodian (entry d' (a, b)))"
proof (cases "name_passes f (d_name (d_fws d ! a))")
  case False
  with assms have "d' = d"
    by (auto simp: custodian_step_def py_get_def split: if_splits)
  with False show ?thesis by simp
next
  case True
  with assms obtain kw where s: "set_task d a b (RunVaspCustodian kw) = Inr d'"
    by (auto simp: custodian_step_def py_get_def split: sum.splits if_splits option.splits)
  from set_task_result [OF s] have r: "in_range d (a, b)" and sh: "shape d' = shape d"
    and e: "entry d' (a, b) = RunVaspCustodian kw"
    and o: "\<forall>q. q \<noteq> (a, b) \<longrightarrow> entry d' q = entry d q"
    by simp_all
  have c: "is_custodian (entry d' (a, b))" unfolding e is_custodian_def by blast
  have "\<forall>q. is_custodian (entry d q) \<longrightarrow> is_custodian (entry d' q)"
  proof (intro allI impI)
    fix q assume q: "is_custodian (entry d q)"
    show "is_custodian (entry d' q)"
    proof (cases "q = (a, b)")
      case True
      with c show ?thesis by simp
    next
      case False
      from o [rule_format, OF False] q show ?thesis by simp
    qed
  qed
  with sh r c show ?thesis by simp
qed

lemma custodian_loop_result:
  assumes "for_each (custodian_step f cp) ps d = Inr d'"
  shows "shape d' = shape d \<and>
         (\<forall>q. is_custodian (entry d q) \<longrightarrow> is_custodian (entry d' q)) \<and>
         (\<forall>p \<in> set ps. fst p < length (d_fws d) \<and> name_passes f (d_name (d_fws d ! fst p)) \<longrightarrow>
              in_range d p \<and> is_custodian (entry d' p))"
  using assms
proof (induction ps arbitrary: d)
  case Nil
  then show ?case by simp
next
  case (Cons p ps)
  obtain a b where p: "p = (a, b)" by (cases p)
  from Cons.prems obtain d1 where s: "custodian_step f cp d (a, b) = Inr d1"
    and r: "for_each (custodian_step f cp) ps d1 = Inr d'"
    by (auto simp: p split: sum.splits)
  from custodian_step_result [OF s] have sh1: "shape d1 = shape d"
    and k1: "\<forall>q. is_custodian (entry d q) \<longrightarrow> is_custodian (entry d1 q)"
    and n1: "name_passes f (d_name (d_fws d ! a)) \<longrightarrow> in_range d (a, b) \<and> is_custodian (entry d1 (a, b))"
    by simp_all
  from Cons.IH [OF r] have sh2: "shape d' = shape d1"
    and k2: "\<forall>q. is_custodian (entry d1 q) \<longrightarrow> is_custodian (entry d' q)"
    and n2: "\<forall>p \<in> set ps. fst p < length (d_fws d1) \<and> name_passes f (d_name (d_fws d1 ! fst p)) \<longrightarrow>
              in_range d1 p \<and> is_custodian (entry d' p)"
    by simp_all
  have len: "length (d_fws d1) = length (d_fws d)" by (rule shape_length [OF sh1])
  have "\<forall>p \<in> set (p # ps). fst p < length (d_fws d) \<and> name_passes f (d_name (d_fws d ! fst p)) \<longrightarrow>
              in_range d p \<and> is_custodian (entry d' p)"
  proof (intro ballI impI)
    fix q assume q: "q \<in> set (p # ps)"
      and h: "fst q < length (d_fws d) \<and> name_passes f (d_name (d_fws d ! fst q))"
    show "in_range d q \<and> is_custodian (entry d' q)"
    proof (cases "q = p")
      case True
      with h n1 p k2 show ?thesis by simp
    next
      case False
      with q have m: "q \<in> set ps" by simp
      from h have "d_name (d_fws d1 ! fst q) = d_name (d_fws d ! fst q)"
        using shape_nth [OF sh1, of "fst q"] by simp
      with h len n2 m have "in_range d1 q \<and> is_custodian (entry d' q)" by simp
      then show ?thesis by (simp add: in_range_shape [OF sh1])
    qed
  qed
  with sh1 sh2 k1 k2 show ?case by simp
qed

lemma fake_tasks_result:
  assumes "fake_tasks fd jt i j ts d = Inr d'"
  shows "shape d' = shape d \<and>
         (\<forall>q. is_fake (entry d q) \<longrightarrow> is_fake (entry d' q)) \<and>
         (\<forall>k < length ts. is_runvasp_task (ts ! k) \<longrightarrow>
              in_range d (i, j + k) \<and> is_fake (entry d' (i, j + k)))"
  using assms
proof (induction ts arbitrary: j d)
  case Nil
  then show ?case by simp
next
  case (Cons t ts)
  show ?case
  proof (cases "is_runvasp_task t")
    case False
    with Cons.prems have r: "fake_tasks fd jt i (Suc j) ts d = Inr d'" by simp
    from Cons.IH [OF r] have sh: "shape d' = shape d"
      and k: "\<forall>q. is_fake (entry d q) \<longrightarrow> is_fake (entry d' q)"
      and n: "\<forall>k < length ts. is_runvasp_task (ts ! k) \<longrightarrow>
              in_range d (i, Suc j + k) \<and> is_fake (entry d' (i, Suc j + k))"
      by simp_all
    have "\<forall>k < length (t # ts). is_runvasp_task ((t # ts) ! k) \<longrightarrow>
              in_range d (i, j + k) \<and> is_fake (entry d' (i, j + k))"
    proof (intro allI impI)
      fix k assume k: "k < length (t # ts)" and rk: "is_runvasp_task ((t # ts) ! k)"
      show "in_range d (i, j + k) \<and> is_fake (entry d' (i, j + k))"
      proof (cases k)
        case 0
        with rk False show ?thesis by simp
      next
        case (Suc k')
        with k rk n [rule_format, of k'] show ?thesis by simp
      qed
    qed
    with sh k show ?thesis by simp
  next
    case True
    with Cons.prems obtain dir d1 where s: "set_task d i j (RunVaspFake dir) = Inr d1"
      and r: "fake_tasks fd jt i (Suc j) ts d1 = Inr d'"
      by (auto split: option.splits sum.splits)
    from set_task_result [OF s] have r0: "in_range d (i, j)" and sh1: "shape d1 = shape d"
      and e: "entry d1 (i, j) = RunVaspFake dir"
      and o: "\<forall>q. q \<noteq> (i, j) \<longrightarrow> entry d1 q = entry d q"
      by simp_all
    have f1: "is_fake (entry d1 (i, j))" unfolding e is_fake_def by blast
    have k1: "\<forall>q. is_fake (entry d q) \<longrightarrow> is_fake (entry d1 q)"
    proof (intro allI impI)
      fix q assume q: "is_fake (entry d q)"
      show "is_fake (entry d1 q)"
      proof (cases "q = (i, j)")
        case True
        with f1 show ?thesis by simp
      next
        case False
        from o [rule_format, OF False] q show ?thesis by simp
      qed
    qed
    from Cons.IH [OF r] have sh2: "shape d' = shape d1"
      and k2: "\<forall>q. is_fake (entry d1 q) \<longrightarrow> is_fake (entry d' q)"
      and n: "\<forall>k < length ts. is_runvasp_task (ts ! k) \<longrightarrow>
              in_range d1 (i, Suc j + k) \<and> is_fake (entry d' (i, Suc j + k))"
      by simp_all
    have "\<forall>k < length (t # ts). is_runvasp_task ((t # ts) ! k) \<longrightarrow>
              in_range d (i, j + k) \<and> is_fake (entry d' (i, j + k))"
    proof (intro allI impI)
      fix k assume k: "k < length (t # ts)" and rk: "is_runvasp_task ((t # ts) ! k)"
      show "in_range d (i, j + k) \<and> is_fake (entry d' (i, j + k))"
      proof (cases k)
        case 0
        with r0 f1 k2 show ?thesis by simp
      next
        case (Suc k')
        with k rk n [rule_format, of k'] show ?thesis
          by (simp add: in_range_shape [OF sh1])
      qed
    qed
    with sh1 sh2 k1 k2 show ?thesis by simp
  qed
qed

lemma fake_job_types_result:
  assumes "fake_job_types fd i fw keys d = Inr d'"
  shows "shape d' = shape d \<and>
         (\<forall>q. is_fake (entry d q) \<longrightarrow> is_fake (entry d' q)) \<and>
         ((\<exists>label \<in> set keys. py_in label (name fw)) \<longrightarrow>
            (\<forall>k < length (tasks fw). is_runvasp_task (tasks fw ! k) \<longrightarrow>
               in_range d (i, k) \<and> is_fake (entry d' (i, k))))"
  using assms
proof (induction keys arbitrary: d)
  case Nil
  then show ?case by simp
next
  case (Cons jt keys)
  show ?case
  proof (cases "py_in jt (name fw)")
    case False
    with Cons.prems have "fake_job_types fd i fw keys d = Inr d'" by simp
    from Cons.IH [OF this] False show ?thesis by simp
  next
    case True
    with Cons.prems obtain d1 where s: "fake_tasks fd jt i 0 (tasks fw) d = Inr d1"
      and r: "fake_job_types fd i fw keys d1 = Inr d'"
      by (auto split: sum.splits)
    from fake_tasks_result [OF s] have sh1: "shape d1 = shape d"
      and k1: "\<forall>q. is_fake (entry d q) \<longrightarrow> is_fake (entry d1 q)"
      and n1: "\<forall>k < length (tasks fw). is_runvasp_task (tasks fw ! k) \<longrightarrow>
              in_range d (i, k) \<and> is_fake (entry d1 (i, k))"
      by simp_all
    from Cons.IH [OF r] have sh2: "shape d' = shape d1"
      and k2: "\<forall>q. is_fake (entry d1 q) \<longrightarrow> is_fake (entry d' q)"
      by simp_all
    from n1 k2 have "\<forall>k < length (tasks fw). is_runvasp_task (tasks fw ! k) \<longrightarrow>
               in_range d (i, k) \<and> is_fake (entry d' (i, k))" by simp
    with sh1 sh2 k1 k2 show ?thesis by simp
  qed
qed

lemma fake_fws_result:
  assumes "fake_fws fd i fs d = Inr d'"
  shows "shape d' = shape d \<and>
         (\<forall>q. is_fake (entry d q) \<longrightarrow> is_fake (entry d' q)) \<and>
         (\<forall>m < length fs. (\<exists>label \<in> set (map fst fd). py_in label (name (fs ! m))) \<longrightarrow>
            (\<forall>k < length (tasks (fs ! m)). is_runvasp_task (tasks (fs ! m) ! k) \<longrightarrow>
               in_range d (i + m, k) \<and> is_fake (entry d' (i + m, k))))"
  using assms
proof (induction fs arbitrary: i d)
  case Nil
  then show ?case by simp
next
  case (Cons fw fs)
  from Cons.prems obtain d1 where s: "fake_job_types fd i fw (map fst fd) d = Inr d1"
    and r: "fake_fws fd (Suc i) fs d1 = Inr d'"
    by (auto split: sum.splits)
  from fake_job_types_result [OF s] have sh1: "shape d1 = shape d"
    and k1: "\<forall>q. is_fake (entry d q) \<longrightarrow> is_fake (entry d1 q)"
    and n1: "(\<exists>label \<in> set (map fst fd). py_in label (name fw)) \<longrightarrow>
            (\<forall>k < length (tasks fw). is_runvasp_task (tasks fw ! k) \<longrightarrow>
               in_range d (i, k) \<and> is_fake (entry d1 (i, k)))"
    by simp_all
  from Cons.IH [OF r] have sh2: "shape d' = shape d1"
    and k2: "\<forall>q. is_fake (entry d1 q) \<longrightarrow> is_fake (entry d' q)"
    and n2: "\<forall>m < length fs. (\<exists>label \<in> set (map fst fd). py_in label (name (fs ! m))) \<longrightarrow>
            (\<forall>k < length (tasks (fs ! m)). is_runvasp_task (tasks (fs ! m) ! k) \<longrightarrow>
               in_range d1 (Suc i + m, k) \<and> is_fake (entry d' (Suc i + m, k)))"
    by simp_all
  have "\<forall>m < length (fw # fs). (\<exists>label \<in> set (map fst fd). py_in label (name ((fw # fs) ! m))) \<longrightarrow>
            (\<forall>k < length (tasks ((fw # fs) ! m)). is_runvasp_task (tasks ((fw # fs) ! m) ! k) \<longrightarrow>
               in_range d (i + m, k) \<and> is_fake (entry d' (i + m, k)))"
  proof (intro allI impI)
    fix m k assume m: "m < length (fw # fs)"
      and l: "\<exists>label \<in> set (map fst fd). py_in label (name ((fw # fs) ! m))"
      and k: "k < length (tasks ((fw # fs) ! m))"
      and rk: "is_runvasp_task (tasks ((fw # fs) ! m) ! k)"
    show "in_range d (i + m, k) \<and> is_fake (entry d' (i + m, k))"
    proof (cases m)
      case 0
      with l k rk n1 k2 show ?thesis by simp
    next
      case (Suc m')
      with m l k rk n2 [rule_format, of m' k] show ?thesis
        by (simp add: in_range_shape [OF sh1])
    qed
  qed
  with sh1 sh2 k1 k2 show ?case by simp
qed

lemma from_dict_in_scan:
  assumes sh: "shape d' = shape (to_dict w)" and i: "i < length (fws w)"
    and r: "in_range (to_dict w) (i, j)"
    and l: "\<exists>label \<in> set (map fst fd). py_in label (name (fws w ! i))"
    and e: "is_runvasp_task (entry d' (i, j))"
  shows "tasks (fws (from_dict d') ! i) ! j = entry d' (i, j) \<and>
         (i, j) \<in> set (get_runvasp_fws_and_tasks fd (from_dict d'))"
proof -
  have len0: "length (d_fws (to_dict w)) = length (fws w)" by (simp add: to_dict_def)
  from shape_length [OF sh] have len: "length (d_fws d') = length (fws w)" by (simp add: len0)
  from r have r': "in_range d' (i, j)" by (simp add: in_range_shape [OF sh])
  then have j: "j < length (s_tasks (d_spec (d_fws d' ! i)))" by (simp add: in_range_iff)
  from shape_nth [OF sh, of i] i have "d_name (d_fws d' ! i) = d_name (d_fws (to_dict w) ! i)"
    by (simp add: len0)
  with i have nm: "d_name (d_fws d' ! i) = name (fws w ! i)"
    by (simp add: to_dict_def fw_to_dict_def)
  from i len have fw: "fws (from_dict d') ! i = fw_from_dict (d_fws d' ! i)"
    by (simp add: from_dict_def)
  have t: "tasks (fws (from_dict d') ! i) = s_tasks (d_spec (d_fws d' ! i))"
    by (simp add: fw fw_from_dict_def)
  have n: "name (fws (from_dict d') ! i) = name (fws w ! i)"
    by (simp add: fw fw_from_dict_def nm)
  have te: "tasks (fws (from_dict d') ! i) ! j = entry d' (i, j)"
    by (simp add: t entry_def)
  have "i < length (fws (from_dict d'))" using i len by (simp add: from_dict_def)
  with j l e have "(i, j) \<in> set (get_runvasp_fws_and_tasks fd (from_dict d'))"
    unfolding in_scan by (simp add: t n entry_def)
  with te show ?thesis by simp
qed

text \<open>
  Claim C10. \<^verbatim>\<open>is_runvasp_task\<close> is true of a task exactly when \<^verbatim>\<open>RunVasp\<close> occurs in the
  task's string representation. It is true of every \<^verbatim>\<open>RunVaspCustodian\<close> and every
  \<^verbatim>\<open>RunVaspFake\<close> task, so the tasks substituted by one powerup are matched again: for
  every workflow that \<^verbatim>\<open>use_custodian\<close> returns, each located pair of the input whose
  Firework passes the name filter holds a \<^verbatim>\<open>RunVaspCustodian\<close> task in the returned
  workflow and is located by the scan of the returned workflow; for every workflow that
  \<^verbatim>\<open>make_fake_workflow\<close> returns, each located pair of the input holds a \<^verbatim>\<open>RunVaspFake\<close>
  task and is located again.
\<close>

theorem substituted_tasks_match_again:
  "(is_runvasp_task t \<longleftrightarrow> (\<exists>pre post. str_task t = pre @ ''RunVasp'' @ post)) \<and>
   is_runvasp_task (RunVaspCustodian kwargs) \<and>
   is_runvasp_task (RunVaspFake fake_dir) \<and>
   (use_custodian fd w fw_name_filter custodian_params = Inr w' \<and>
    (i, j) \<in> set (get_runvasp_fws_and_tasks fd w) \<and>
    name_passes fw_name_filter (name (fws w ! i))
      \<longrightarrow> is_custodian (tasks (fws w' ! i) ! j) \<and>
          (i, j) \<in> set (get_runvasp_fws_and_tasks fd w')) \<and>
   (make_fake_workflow fd w = Inr w'' \<and>
    (i, j) \<in> set (get_runvasp_fws_and_tasks fd w)
      \<longrightarrow> is_fake (tasks (fws w'' ! i) ! j) \<and>
          (i, j) \<in> set (get_runvasp_fws_and_tasks fd w''))"
proof (intro conjI impI)
  show "is_runvasp_task t \<longleftrightarrow> (\<exists>pre post. str_task t = pre @ ''RunVasp'' @ post)"
    by (simp add: is_runvasp_task_def py_in_iff)
  show "is_runvasp_task (RunVaspCustodian kwargs)" by (rule is_runvasp_RunVaspCustodian)
  show "is_runvasp_task (RunVaspFake fake_dir)" by (rule is_runvasp_RunVaspFake)
next
  assume h: "use_custodian fd w fw_name_filter custodian_params = Inr w' \<and>
    (i, j) \<in> set (get_runvasp_fws_and_tasks fd w) \<and>
    name_passes fw_name_filter (name (fws w ! i))"
  define cp where "cp = (case custodian_params of None \<Rightarrow> [] | Some d \<Rightarrow> if d \<noteq> [] then d else [])"
  from h obtain d' where
    loop: "for_each (custodian_step fw_name_filter cp) (get_runvasp_fws_and_tasks fd w) (to_dict w) = Inr d'"
    and w': "w' = from_dict d'"
    by (auto simp: use_custodian_def cp_def Let_def split: sum.splits)
  from h have mem: "(i, j) \<in> set (get_runvasp_fws_and_tasks fd w)" by simp
  then have i: "i < length (fws w)"
    and l: "\<exists>label \<in> set (map fst fd). py_in label (name (fws w ! i))"
    unfolding in_scan by simp_all
  from custodian_loop_result [OF loop] have sh: "shape d' = shape (to_dict w)"
    and n: "\<forall>p \<in> set (get_runvasp_fws_and_tasks fd w).
              fst p < length (d_fws (to_dict w)) \<and>
              name_passes fw_name_filter (d_name (d_fws (to_dict w) ! fst p)) \<longrightarrow>
              in_range (to_dict w) p \<and> is_custodian (entry d' p)"
    by simp_all
  from h i have "fst (i, j) < length (d_fws (to_dict w)) \<and>
      name_passes fw_name_filter (d_name (d_fws (to_dict w) ! fst (i, j)))"
    by (simp add: to_dict_def fw_to_dict_def)
  with n mem have r: "in_range (to_dict w) (i, j)" and c: "is_custodian (entry d' (i, j))"
    by blast+
  from c have "is_runvasp_task (entry d' (i, j))"
    by (auto simp: is_custodian_def is_runvasp_RunVaspCustodian)
  from from_dict_in_scan [OF sh i r l this] c
  show "is_custodian (tasks (fws w' ! i) ! j)"
    and "(i, j) \<in> set (get_runvasp_fws_and_tasks fd w')"
    by (simp_all add: w')
next
  assume h: "make_fake_workflow fd w = Inr w'' \<and> (i, j) \<in> set (get_runvasp_fws_and_tasks fd w)"
  then obtain d' where loop: "fake_fws fd 0 (fws w) (to_dict w) = Inr d'" and w'': "w'' = from_dict d'"
    by (auto simp: make_fake_workflow_def split: sum.splits)
  from h have mem: "(i, j) \<in> set (get_runvasp_fws_and_tasks fd w)" by simp
  then have i: "i < length (fws w)" and j: "j < length (tasks (fws w ! i))"
    and l: "\<exists>label \<in> set (map fst fd). py_in label (name (fws w ! i))"
    and rv: "is_runvasp_task (tasks (fws w ! i) ! j)"
    unfolding in_scan by simp_all
  from fake_fws_result [OF loop] have sh: "shape d' = shape (to_dict w)"
    and n: "\<forall>m < length (fws w). (\<exists>label \<in> set (map fst fd). py_in label (name (fws w ! m))) \<longrightarrow>
            (\<forall>k < length (tasks (fws w ! m)). is_runvasp_task (tasks (fws w ! m) ! k) \<longrightarrow>
               in_range (to_dict w) (0 + m, k) \<and> is_fake (entry d' (0 + m, k)))"
    by simp_all
  from n [rule_format, OF i l j rv] have r: "in_range (to_dict w) (i, j)"
    and c: "is_fake (entry d' (i, j))"
    by simp_all
  from c have "is_runvasp_task (entry d' (i, j))"
    by (auto simp: is_fake_def is_runvasp_RunVaspFake)
  from from_dict_in_scan [OF sh i r l this] c
  show "is_fake (tasks (fws w'' ! i) ! j)"
    and "(i, j) \<in> set (get_runvasp_fws_and_tasks fd w'')"
    by (simp_all add: w'')
qed

lemma use_custodian_write_name_example:
  "\<exists>w'. use_custodian example_fake_dirs write_name_example_wf None
          (Some [(''vasp_cmd'', PStr ''vasp'')]) = Inr w'"
  unfolding use_custodian_def write_name_example_scan
  by (simp add: custodian_step_def set_task_def py_get_def py_set_def name_passes_def
      to_dict_def fw_to_dict_def write_name_example_wf_def decorate_write_name_def
      py_insert_def fake_example_wf_def Firework_def Let_def)

lemma make_fake_workflow_write_name_example:
  "\<exists>w''. make_fake_workflow example_fake_dirs write_name_example_wf = Inr w''"
  by (simp add: make_fake_workflow_def example_fake_dirs_def write_name_example_wf_def
      decorate_write_name_def py_insert_def fake_example_wf_def Firework_def
      is_runvasp_RunVaspDirect not_runvasp_Write
      set_task_def py_get_def py_set_def to_dict_def fw_to_dict_def)

theorem substituted_tasks_match_again_witness:
  "(0, 1) \<in> set (get_runvasp_fws_and_tasks example_fake_dirs write_name_example_wf) \<and>
   (\<exists>w'. use_custodian example_fake_dirs write_name_example_wf None
            (Some [(''vasp_cmd'', PStr ''vasp'')]) = Inr w' \<and>
      is_custodian (tasks (fws w' ! 0) ! 1) \<and>
      (0, 1) \<in> set (get_runvasp_fws_and_tasks example_fake_dirs w')) \<and>
   (\<exists>w''. make_fake_workflow example_fake_dirs write_name_example_wf = Inr w'' \<and>
      is_fake (tasks (fws w'' ! 0) ! 1) \<and>
      (0, 1) \<in> set (get_runvasp_fws_and_tasks example_fake_dirs w''))"
proof -
  have m: "(0, 1) \<in> set (get_runvasp_fws_and_tasks example_fake_dirs write_name_example_wf)"
    by (simp add: write_name_example_scan)
  from use_custodian_write_name_example obtain w' where
    u: "use_custodian example_fake_dirs write_name_example_wf None
          (Some [(''vasp_cmd'', PStr ''vasp'')]) = Inr w'" by blast
  from make_fake_workflow_write_name_example obtain w'' where
    f: "make_fake_workflow example_fake_dirs write_name_example_wf = Inr w''" by blast
  from substituted_tasks_match_again [where fd = example_fake_dirs and w = write_name_example_wf
      and fw_name_filter = None and custodian_params = "Some [(''vasp_cmd'', PStr ''vasp'')]"
      and w' = w' and w'' = w'' and i = 0 and j = 1] u f m
  have "is_custodian (tasks (fws w' ! 0) ! 1) \<and>
        (0, 1) \<in> set (get_runvasp_fws_and_tasks example_fake_dirs w')"
    and "is_fake (tasks (fws w'' ! 0) ! 1) \<and>
        (0, 1) \<in> set (get_runvasp_fws_and_tasks example_fake_dirs w'')"
    by (simp_all add: name_passes_def)
  with m u f show ?thesis by blast
qed

end
